theory Spec2Isabelle
  imports Complex_Main "HOL-Library.Word"
begin

unbundle bit_operations_syntax

section \<open>Single-precision arithmetic\<close>

text \<open>
  The tuning code computes in C++ \<open>float\<close>. A float value is modelled by the real number
  it denotes and every float operation by the exact operation followed by a rounding
  function \<open>rnd\<close>, which is a parameter of the model. With \<open>rnd = exact\<close> the model
  is exact arithmetic; with \<open>rnd = binary32\<close> it is IEEE 754 single precision with
  round-to-nearest-even (overflow to infinity is not modelled).
\<close>

definition exact :: "real \<Rightarrow> real" where
  "exact x = x"

definition round_even :: "real \<Rightarrow> int" where
  "round_even x =
     (let f = \<lfloor>x\<rfloor>; d = x - of_int f
      in if d < 1 / 2 then f else if 1 / 2 < d then f + 1
         else if even f then f else f + 1)"

text \<open>
  \<open>b32_scale n m e\<close> rounds the positive magnitude \<open>m * 2 ^ e\<close> to a 24-bit
  significand: \<open>m\<close> is brought into \<open>[2 ^ 23, 2 ^ 24)\<close> (or left smaller at the
  least exponent \<open>-149\<close>, the subnormal numbers) and then rounded to an integer.
  \<open>n\<close> bounds the number of scaling steps.
\<close>

fun b32_scale :: "nat \<Rightarrow> real \<Rightarrow> int \<Rightarrow> real" where
  "b32_scale 0 m e = 0"
| "b32_scale (Suc n) m e =
     (if 16777216 \<le> m then b32_scale n (m / 2) (e + 1)
      else if m < 8388608 \<and> - 149 < e then b32_scale n (m * 2) (e - 1)
      else if 0 \<le> e then of_int (round_even m) * 2 ^ nat e
      else of_int (round_even m) / 2 ^ nat (- e))"

definition binary32 :: "real \<Rightarrow> real" where
  "binary32 x =
     (if x = 0 then 0
      else if 0 < x then b32_scale 400 x 0
      else - b32_scale 400 (- x) 0)"

definition fadd :: "(real \<Rightarrow> real) \<Rightarrow> real \<Rightarrow> real \<Rightarrow> real" where
  "fadd rnd a b = rnd (a + b)"

definition fsub :: "(real \<Rightarrow> real) \<Rightarrow> real \<Rightarrow> real \<Rightarrow> real" where
  "fsub rnd a b = rnd (a - b)"

definition fmul :: "(real \<Rightarrow> real) \<Rightarrow> real \<Rightarrow> real \<Rightarrow> real" where
  "fmul rnd a b = rnd (a * b)"

definition fdiv :: "(real \<Rightarrow> real) \<Rightarrow> real \<Rightarrow> real \<Rightarrow> real" where
  "fdiv rnd a b = rnd (a / b)"

text \<open>\<open>(float)x\<close> for an \<open>int32_t\<close>, a \<open>uint16_t\<close> and an \<open>unsigned int\<close>.\<close>

definition float_of_int32 :: "(real \<Rightarrow> real) \<Rightarrow> 32 word \<Rightarrow> real" where
  "float_of_int32 rnd w = rnd (of_int (sint w))"

definition float_of_uint16 :: "(real \<Rightarrow> real) \<Rightarrow> 16 word \<Rightarrow> real" where
  "float_of_uint16 rnd w = rnd (of_nat (unat w))"

definition float_of_uint :: "(real \<Rightarrow> real) \<Rightarrow> nat \<Rightarrow> real" where
  "float_of_uint rnd n = rnd (of_nat n)"

text \<open>\<open>fcube\<close> is the library's \<open>a * a * a\<close> on floats.\<close>

definition fcube :: "(real \<Rightarrow> real) \<Rightarrow> real \<Rightarrow> real" where
  "fcube rnd a = fmul rnd (fmul rnd a a) a"

section \<open>Closed-loop state (ClosedLoop.h, Tuning.cpp)\<close>

datatype BasicTuningState = forwardInitial | forwards | reverseInitial | reverse

datatype EncoderPositioningType = absolute | relative

text \<open>
  \<open>PerformTune\<close> only asks whether the driver mode is \<open>direct\<close>; every other mode
  is \<open>otherMode\<close>.
\<close>

datatype DriverMode = direct | otherMode

text \<open>
  Calls into the parts of the firmware that are outside the sources at hand (the stepper
  driver, the encoder's lookup table, the closed-loop control module) are recorded, with
  their arguments, in the order they are made; the most recent call is the head.
\<close>

datatype event =
    SetForwardPolarity
  | SetMotorPhase "16 word" real
  | SaveBasicTuningResult real real real bool
  | FinishedBasicTuning
  | ClearLUT
  | StoreLUTValueForPosition "32 word" real
  | StoreLUT
  | AdjustTargetMotorSteps real

text \<open>
  The function-local statics of \<open>BasicTuning\<close> (its \<open>state\<close> is \<open>bt_state\<close>
  here), of \<open>EncoderCalibration\<close> and of \<open>PerformTune\<close>, and the globals of
  namespace \<open>ClosedLoop\<close> that they use.
  \<open>stepCounter\<close> is an \<open>unsigned int\<close> that is reset to 0 on entry to every state
  and never counts beyond \<open>NumSamples\<close>, so it is a \<open>nat\<close>. \<open>readings\<close> counts
  the calls of \<open>encoder->GetReading()\<close> made so far.
\<close>

record closed_loop =
  desiredStepPhase :: "16 word"
  tuning :: "8 word"
  tuningError :: "8 word"
  newTuningMove :: bool
  bt_state :: BasicTuningState
  initialStepPhase :: "16 word"
  initialEncoderReading :: "32 word"
  stepCounter :: nat
  regressionAccumulator :: real
  readingAccumulator :: real
  targetPosition :: "32 word"
  positionCounter :: "32 word"
  readings :: nat
  events :: "event list"

text \<open>
  The encoder object: \<open>GetReading k\<close> is the value the \<open>k\<close>-th call of
  \<open>GetReading()\<close> returns.
\<close>

record encoder_hw =
  GetPositioningType :: EncoderPositioningType
  GetReading :: "nat \<Rightarrow> 32 word"
  GetMaxValue :: "32 word"
  GetLUTResolution :: "32 word"

text \<open>
  What a tick of the control loop finds: the driver mode, the encoder pointer
  (\<open>None\<close> is \<open>nullptr\<close>), the global \<open>currentEncoderReading\<close>, the value of
  \<open>PulsePerStepToExternalUnits(encoderPulsePerStep, EncoderType::AS5047)\<close> and the
  rounding of float operations.
\<close>

record tick_env =
  rnd :: "real \<Rightarrow> real"
  GetDriverMode :: DriverMode
  encoder :: "encoder_hw option"
  currentEncoderReading :: "32 word"
  pulsePerStepExternal :: real

text \<open>
  The header at hand defines \<open>TUNE_ERR_SYSTEM_ERROR\<close>, \<open>STEP_MANOEUVRE\<close>,
  \<open>CONTINUOUS_PHASE_INCREASE_MANOEUVRE\<close> and \<open>ZIEGLER_NICHOLS_MANOEUVRE\<close>.
  \<open>BASIC_TUNING_MANOEUVRE\<close>, \<open>ENCODER_CALIBRATION_MANOEUVRE\<close> and
  \<open>TUNE_ERR_NOT_DONE_BASIC\<close> are used by \<open>PerformTune\<close> but their values are
  not in the sources, so they are parameters.
\<close>

definition TUNE_ERR_SYSTEM_ERROR :: "8 word" where
  "TUNE_ERR_SYSTEM_ERROR = push_bit 7 1"

definition CONTINUOUS_PHASE_INCREASE_MANOEUVRE :: "8 word" where
  "CONTINUOUS_PHASE_INCREASE_MANOEUVRE = push_bit 5 1"

definition STEP_MANOEUVRE :: "8 word" where
  "STEP_MANOEUVRE = push_bit 6 1"

definition ZIEGLER_NICHOLS_MANOEUVRE :: "8 word" where
  "ZIEGLER_NICHOLS_MANOEUVRE = push_bit 7 1"

record tune_consts =
  BASIC_TUNING_MANOEUVRE :: "8 word"
  ENCODER_CALIBRATION_MANOEUVRE :: "8 word"
  TUNE_ERR_NOT_DONE_BASIC :: "8 word"

section \<open>Basic tuning\<close>

definition NumDummySteps :: nat where
  "NumDummySteps = 8"

definition PhaseIncrement :: "16 word" where
  "PhaseIncrement = 8"

definition NumSamples :: nat where
  "NumSamples = 4096 div unat PhaseIncrement"

definition HalfNumSamplesMinusOne :: "(real \<Rightarrow> real) \<Rightarrow> real" where
  "HalfNumSamplesMinusOne r = fmul r (float_of_uint r (NumSamples - 1)) (1 / 2)"

definition Denominator :: "(real \<Rightarrow> real) \<Rightarrow> real" where
  "Denominator r =
     fdiv r (fmul r (float_of_uint16 r PhaseIncrement)
                    (fsub r (fcube r (float_of_uint r NumSamples)) (float_of_uint r NumSamples)))
            12"

text \<open>
  The body shared by the states \<open>forwards\<close> and \<open>reverse\<close>: read the encoder, set the
  baseline on the first sample, add to both accumulators.
\<close>

definition collect :: "(real \<Rightarrow> real) \<Rightarrow> encoder_hw \<Rightarrow> closed_loop \<Rightarrow> closed_loop" where
  "collect r enc s =
     (let reading = GetReading enc (readings s);
          s1 = s\<lparr>readings := Suc (readings s)\<rparr>;
          s2 = (if stepCounter s1 = 0 then s1\<lparr>initialEncoderReading := reading\<rparr> else s1);
          d = float_of_int32 r (reading - initialEncoderReading s2);
          s3 = s2\<lparr>readingAccumulator := fadd r (readingAccumulator s2) d\<rparr>
      in s3\<lparr>regressionAccumulator :=
               fadd r (regressionAccumulator s3)
                 (fmul r d (fsub r (float_of_uint r (stepCounter s3)) (HalfNumSamplesMinusOne r)))\<rparr>)"

definition BasicTuning ::
  "(real \<Rightarrow> real) \<Rightarrow> encoder_hw \<Rightarrow> bool \<Rightarrow> closed_loop \<Rightarrow> bool \<times> closed_loop" where
  "BasicTuning r enc firstIteration s0 =
     (let s = (if firstIteration
               then s0\<lparr>bt_state := forwardInitial, stepCounter := 0,
                       events := SetForwardPolarity # events s0\<rparr>
               else s0)
      in case bt_state s of
        forwardInitial \<Rightarrow>
          (let p = desiredStepPhase s + PhaseIncrement;
               s1 = s\<lparr>desiredStepPhase := p, events := SetMotorPhase p 1 # events s,
                       stepCounter := Suc (stepCounter s)\<rparr>
           in (False,
               if stepCounter s1 = NumDummySteps
               then s1\<lparr>regressionAccumulator := 0, readingAccumulator := 0, stepCounter := 0,
                        initialStepPhase := desiredStepPhase s1, bt_state := forwards\<rparr>
               else s1))
      | forwards \<Rightarrow>
          (let s1 = collect r enc s
           in if stepCounter s1 = NumSamples
              then
                (let yMean = fadd r (fdiv r (readingAccumulator s1) (float_of_uint r NumSamples))
                                    (float_of_int32 r (initialEncoderReading s1));
                     slope = fdiv r (regressionAccumulator s1) (Denominator r);
                     xMean = fadd r (float_of_uint16 r (initialStepPhase s1))
                                    (fmul r (float_of_uint16 r PhaseIncrement)
                                            (HalfNumSamplesMinusOne r));
                     origin = fsub r yMean (fmul r slope xMean)
                 in (False,
                     s1\<lparr>events := SaveBasicTuningResult slope origin xMean False # events s1,
                        stepCounter := 0, bt_state := reverseInitial\<rparr>))
              else
                (let p = desiredStepPhase s1 + PhaseIncrement
                 in (False,
                     s1\<lparr>desiredStepPhase := p, events := SetMotorPhase p 1 # events s1,
                        stepCounter := Suc (stepCounter s1)\<rparr>)))
      | reverseInitial \<Rightarrow>
          (let p = desiredStepPhase s - PhaseIncrement;
               s1 = s\<lparr>desiredStepPhase := p, events := SetMotorPhase p 1 # events s,
                       stepCounter := Suc (stepCounter s)\<rparr>
           in (False,
               if stepCounter s1 = NumDummySteps
               then s1\<lparr>regressionAccumulator := 0, readingAccumulator := 0, stepCounter := 0,
                        initialStepPhase := desiredStepPhase s1, bt_state := reverse\<rparr>
               else s1))
      | reverse \<Rightarrow>
          (let s1 = collect r enc s
           in if stepCounter s1 = NumSamples
              then
                (let yMean = fadd r (fdiv r (readingAccumulator s1) (float_of_uint r NumSamples))
                                    (float_of_int32 r (initialEncoderReading s1));
                     slope = fdiv r (regressionAccumulator s1) (- Denominator r);
                     xMean = fsub r (float_of_uint16 r (initialStepPhase s1))
                                    (fmul r (float_of_uint16 r PhaseIncrement)
                                            (HalfNumSamplesMinusOne r));
                     origin = fsub r yMean (fmul r slope xMean)
                 in (True,
                     s1\<lparr>events := FinishedBasicTuning
                                  # SaveBasicTuningResult slope origin xMean True # events s1\<rparr>))
              else
                (let p = desiredStepPhase s1 - PhaseIncrement
                 in (False,
                     s1\<lparr>desiredStepPhase := p, events := SetMotorPhase p 1 # events s1,
                        stepCounter := Suc (stepCounter s1)\<rparr>))))"

text \<open>
  \<open>BasicTuning_run n\<close> is \<open>n\<close> consecutive calls, each passed the previous call's
  result as \<open>firstIteration\<close>, as \<open>PerformTune\<close> does through \<open>newTuningMove\<close>.
\<close>

fun BasicTuning_run ::
  "(real \<Rightarrow> real) \<Rightarrow> encoder_hw \<Rightarrow> nat \<Rightarrow> bool \<times> closed_loop \<Rightarrow> bool \<times> closed_loop" where
  "BasicTuning_run r enc 0 bs = bs"
| "BasicTuning_run r enc (Suc n) bs = BasicTuning_run r enc n (BasicTuning r enc (fst bs) (snd bs))"

text \<open>
  What a sweep has accumulated after \<open>k\<close> samples, written as recursions over the
  sample index: \<open>d i\<close> is the \<open>i\<close>-th baseline-subtracted reading as a float,
  \<open>sample r enc n0 i\<close> when the sweep's first reading is the \<open>n0\<close>-th reading
  of the encoder.
\<close>

primrec sumReading :: "(real \<Rightarrow> real) \<Rightarrow> (nat \<Rightarrow> real) \<Rightarrow> nat \<Rightarrow> real" where
  "sumReading r d 0 = 0"
| "sumReading r d (Suc k) = fadd r (sumReading r d k) (d k)"

primrec sumWeighted :: "(real \<Rightarrow> real) \<Rightarrow> (nat \<Rightarrow> real) \<Rightarrow> nat \<Rightarrow> real" where
  "sumWeighted r d 0 = 0"
| "sumWeighted r d (Suc k) =
     fadd r (sumWeighted r d k)
       (fmul r (d k) (fsub r (float_of_uint r k) (HalfNumSamplesMinusOne r)))"

definition sample :: "(real \<Rightarrow> real) \<Rightarrow> encoder_hw \<Rightarrow> nat \<Rightarrow> nat \<Rightarrow> real" where
  "sample r enc n0 i = float_of_int32 r (GetReading enc (n0 + i) - GetReading enc n0)"

text \<open>
  \<open>sweeping r enc st n0 k s\<close>: \<open>s\<close> is in sweep state \<open>st\<close> with \<open>k\<close> samples
  taken, the first of them the \<open>n0\<close>-th reading of the encoder.
\<close>

definition sweeping ::
  "(real \<Rightarrow> real) \<Rightarrow> encoder_hw \<Rightarrow> BasicTuningState \<Rightarrow> nat \<Rightarrow> nat \<Rightarrow> closed_loop \<Rightarrow> bool" where
  "sweeping r enc st n0 k s \<longleftrightarrow>
     bt_state s = st \<and> stepCounter s = k \<and> readings s = n0 + k
     \<and> readingAccumulator s = sumReading r (sample r enc n0) k
     \<and> regressionAccumulator s = sumWeighted r (sample r enc n0) k
     \<and> (k = 0 \<or> initialEncoderReading s = GetReading enc n0)"

text \<open>
  The result that the forward sweep saves when basic tuning is started in state \<open>s0\<close>,
  in terms of the sums over \<open>n\<close> samples: the settling steps take no reading and
  advance the phase by \<open>NumDummySteps\<close> increments.
\<close>

definition forward_result :: "(real \<Rightarrow> real) \<Rightarrow> encoder_hw \<Rightarrow> closed_loop \<Rightarrow> nat \<Rightarrow> event" where
  "forward_result r enc s0 n =
     (let d = sample r enc (readings s0);
          yMean = fadd r (fdiv r (sumReading r d n) (float_of_uint r NumSamples))
                         (float_of_int32 r (GetReading enc (readings s0)));
          slope = fdiv r (sumWeighted r d n) (Denominator r);
          xMean = fadd r (float_of_uint16 r (desiredStepPhase s0 + 8 * PhaseIncrement))
                         (fmul r (float_of_uint16 r PhaseIncrement) (HalfNumSamplesMinusOne r))
      in SaveBasicTuningResult slope (fsub r yMean (fmul r slope xMean)) xMean False)"

text \<open>
  The same encoder with every reading shifted by \<open>c\<close> (in 32-bit arithmetic), a saved
  result with its origin shifted, and a saved result without its origin.
\<close>

definition shifted :: "32 word \<Rightarrow> encoder_hw \<Rightarrow> encoder_hw" where
  "shifted c enc = enc\<lparr>GetReading := (\<lambda>k. GetReading enc k + c)\<rparr>"

fun shift_origin :: "real \<Rightarrow> event \<Rightarrow> event" where
  "shift_origin c (SaveBasicTuningResult slope origin xMean backwards) =
     SaveBasicTuningResult slope (origin + c) xMean backwards"
| "shift_origin c ev = ev"

fun without_origin :: "event \<Rightarrow> event" where
  "without_origin (SaveBasicTuningResult slope origin xMean backwards) =
     SaveBasicTuningResult slope 0 xMean backwards"
| "without_origin ev = ev"

section \<open>Encoder calibration and the step manoeuvre\<close>

text \<open>C++ integer division and remainder truncate towards zero.\<close>

definition c_div :: "int \<Rightarrow> int \<Rightarrow> int" where
  "c_div a b = sgn a * sgn b * (\<bar>a\<bar> div \<bar>b\<bar>)"

definition c_rem :: "int \<Rightarrow> int \<Rightarrow> int" where
  "c_rem a b = a - c_div a b * b"

text \<open>
  \<open>(positionCounter > 0 ? 0 : 4096) + positionCounter % 4096\<close>, computed in \<open>int\<close> and
  stored in the 16-bit \<open>desiredStepPhase\<close>.
\<close>

definition calibrationPhase :: "32 word \<Rightarrow> 16 word" where
  "calibrationPhase pc =
     word_of_int ((if 0 < sint pc then 0 else 4096) + c_rem (sint pc) 4096)"

text \<open>
  \<open>GetMaxValue() * positionCounter\<close> is an unsigned 32-bit product; the division is done
  in \<open>double\<close> (taken as exact) and the quotient is stored in a \<open>float\<close>.
\<close>

definition realWorldPos :: "tick_env \<Rightarrow> encoder_hw \<Rightarrow> 32 word \<Rightarrow> real" where
  "realWorldPos e enc pc =
     rnd e (of_nat (unat (GetMaxValue enc * pc)) / (1024 * (360 / pulsePerStepExternal e)))"

definition EncoderCalibration ::
  "tick_env \<Rightarrow> encoder_hw \<Rightarrow> bool \<Rightarrow> closed_loop \<Rightarrow> bool \<times> closed_loop" where
  "EncoderCalibration e enc firstIteration s0 =
     (if GetPositioningType enc = relative then (True, s0)
      else
        let s1 = (if firstIteration
                  then s0\<lparr>events := ClearLUT # events s0, targetPosition := 0,
                          positionCounter := 0\<rparr>
                  else s0);
            s2 = (if sint (currentEncoderReading e) < sint (targetPosition s1)
                  then s1\<lparr>positionCounter := positionCounter s1 + 1\<rparr>
                  else if sint (targetPosition s1) < sint (currentEncoderReading e)
                  then s1\<lparr>positionCounter := positionCounter s1 - 1\<rparr>
                  else s1\<lparr>events := StoreLUTValueForPosition (currentEncoderReading e)
                                         (realWorldPos e enc (positionCounter s1)) # events s1,
                          targetPosition := targetPosition s1 + GetLUTResolution enc\<rparr>)
        in if GetMaxValue enc \<le> targetPosition s2
           then (True, s2\<lparr>events := StoreLUT # events s2\<rparr>)
           else
             (let p = calibrationPhase (positionCounter s2)
              in (False, s2\<lparr>desiredStepPhase := p, events := SetMotorPhase p 1 # events s2\<rparr>)))"

definition Step :: "bool \<Rightarrow> closed_loop \<Rightarrow> bool \<times> closed_loop" where
  "Step firstIteration s = (True, s\<lparr>events := AdjustTargetMotorSteps 4 # events s\<rparr>)"

section \<open>The dispatcher\<close>

text \<open>
  The branches for the continuous-phase-increase and Ziegler-Nichols manoeuvres are
  compiled out (\<open>#if 0\<close>), so those requests reach the final \<open>else\<close>.
\<close>

definition PerformTune :: "tune_consts \<Rightarrow> tick_env \<Rightarrow> closed_loop \<Rightarrow> closed_loop" where
  "PerformTune k e s =
     (case (if GetDriverMode e \<noteq> direct then None else encoder e) of
        None \<Rightarrow> s\<lparr>tuningError := tuningError s OR TUNE_ERR_SYSTEM_ERROR, tuning := 0\<rparr>
      | Some enc \<Rightarrow>
          if tuning s AND BASIC_TUNING_MANOEUVRE k \<noteq> 0 then
            (let s1 = (if GetPositioningType enc = absolute
                          \<and> tuning s AND ENCODER_CALIBRATION_MANOEUVRE k \<noteq> 0
                       then s\<lparr>events := ClearLUT # events s\<rparr> else s);
                 (fin, s2) = BasicTuning (rnd e) enc (newTuningMove s1) s1;
                 s3 = s2\<lparr>newTuningMove := fin\<rparr>
             in if fin
                then s3\<lparr>tuningError := tuningError s3 AND NOT (TUNE_ERR_NOT_DONE_BASIC k),
                        tuning := tuning s3 AND NOT (BASIC_TUNING_MANOEUVRE k)\<rparr>
                else s3)
          else if tuning s AND ENCODER_CALIBRATION_MANOEUVRE k \<noteq> 0 then
            (let (fin, s2) = EncoderCalibration e enc (newTuningMove s) s;
                 s3 = s2\<lparr>newTuningMove := fin\<rparr>
             in if fin then s3\<lparr>tuning := 0\<rparr> else s3)
          else if tuning s AND STEP_MANOEUVRE \<noteq> 0 then
            (let (fin, s2) = Step (newTuningMove s) s;
                 s3 = s2\<lparr>newTuningMove := fin\<rparr>
             in if fin then s3\<lparr>tuning := 0\<rparr> else s3)
          else s\<lparr>tuning := 0, newTuningMove := True\<rparr>)"

section \<open>Shared SPI device (SharedSpiDevice.cpp)\<close>

text \<open>
  The SERCOM peripheral as the code sees it. \<open>INTFLAG hw k\<close> is the value the \<open>k\<close>-th
  read of the interrupt-flag register returns (the bus-flag trace) and \<open>DATA_in hw k\<close>
  the value the \<open>k\<close>-th read of the data register returns; \<open>flagReads\<close> and
  \<open>dataReads\<close> count the reads made so far. \<open>DATA_out\<close> lists the values written
  to the data register, the most recent first.
\<close>

record intflag =
  DRE :: bool
  TXC :: bool
  RXC :: bool

record sercom =
  INTFLAG :: "nat \<Rightarrow> intflag"
  flagReads :: nat
  DATA_in :: "nat \<Rightarrow> 32 word"
  dataReads :: nat
  DATA_out :: "32 word list"
  BAUD :: "32 word"
  CTRLA :: "32 word"
  RXEN :: bool

definition SpiTimeout :: "32 word" where
  "SpiTimeout = 10000"

definition poll :: "sercom \<Rightarrow> sercom" where
  "poll hw = hw\<lparr>flagReads := Suc (flagReads hw)\<rparr>"

text \<open>
  The loop shared, word for word, by \<open>waitForTxReady\<close> and \<open>waitForRxReady\<close>:
  \<open>while (!flag) { if (--timeout == 0) return true; } return false;\<close>
  with a \<open>uint32_t\<close> counter.
\<close>

function wait_predec :: "(intflag \<Rightarrow> bool) \<Rightarrow> 32 word \<Rightarrow> sercom \<Rightarrow> bool \<times> sercom" where
  "wait_predec flag timeout hw =
     (if flag (INTFLAG hw (flagReads hw)) then (False, poll hw)
      else if timeout - 1 = 0 then (True, poll hw)
      else wait_predec flag (timeout - 1) (poll hw))"
  by pat_completeness auto
termination
proof (relation "measure (\<lambda>(flag, timeout, hw). unat (timeout - 1))", goal_cases)
  case 1
  show ?case by simp
next
  case (2 flag timeout hw)
  then have nz: "timeout - 1 \<noteq> 0" by simp
  have "unat (timeout - 1 - 1) = unat (timeout - 1) - 1"
    using nz by (rule unat_minus_one)
  moreover have "0 < unat (timeout - 1)"
    using nz by (simp add: unat_gt_0)
  ultimately show ?case by simp
qed

definition waitForTxReady :: "sercom \<Rightarrow> bool \<times> sercom" where
  "waitForTxReady hw = wait_predec DRE SpiTimeout hw"

definition waitForRxReady :: "sercom \<Rightarrow> bool \<times> sercom" where
  "waitForRxReady hw = wait_predec RXC SpiTimeout hw"

text \<open>\<open>while (!TXC) { if (!timeout--) return true; } return false;\<close>\<close>

function waitForTxEmpty_loop :: "32 word \<Rightarrow> sercom \<Rightarrow> bool \<times> sercom" where
  "waitForTxEmpty_loop timeout hw =
     (if TXC (INTFLAG hw (flagReads hw)) then (False, poll hw)
      else if timeout = 0 then (True, poll hw)
      else waitForTxEmpty_loop (timeout - 1) (poll hw))"
  by pat_completeness auto
termination
  by (relation "measure (\<lambda>(timeout, hw). unat timeout)")
     (auto simp: unat_minus_one unat_gt_0)

definition waitForTxEmpty :: "sercom \<Rightarrow> bool \<times> sercom" where
  "waitForTxEmpty hw = waitForTxEmpty_loop SpiTimeout hw"

text \<open>
  \<open>TransceivePacket\<close>: \<open>tx\<close> and \<open>rx\<close> are the memory at \<open>tx_data\<close> and
  \<open>rx_data\<close>, by byte offset (\<open>None\<close> is \<open>nullptr\<close>). The function is the
  \<open>for\<close> loop from position \<open>i\<close> together with the code after it; the result is
  the returned flag, the receive memory and the peripheral. The index \<open>i\<close> only counts
  up to \<open>len\<close>, so both are natural numbers.
\<close>

function TransceivePacket_loop ::
  "(nat \<Rightarrow> 8 word) option \<Rightarrow> (nat \<Rightarrow> 8 word) option \<Rightarrow> nat \<Rightarrow> nat \<Rightarrow> sercom
     \<Rightarrow> bool \<times> (nat \<Rightarrow> 8 word) option \<times> sercom" where
  "TransceivePacket_loop tx rx len i hw =
     (if i < len then
        (let dOut = (case tx of None \<Rightarrow> 0xFF | Some t \<Rightarrow> ucast (t i));
             w1 = waitForTxReady hw
         in if fst w1 then (False, rx, snd w1)
            else
              (let hw2 = (snd w1)\<lparr>DATA_out := dOut # DATA_out (snd w1)\<rparr>
               in case rx of
                    None \<Rightarrow> TransceivePacket_loop tx rx len (Suc i) hw2
                  | Some buf \<Rightarrow>
                      (let w2 = waitForRxReady hw2
                       in if fst w2 then (False, rx, snd w2)
                          else
                            (let dIn = ucast (DATA_in (snd w2) (dataReads (snd w2)));
                                 hw4 = (snd w2)\<lparr>dataReads := Suc (dataReads (snd w2))\<rparr>
                             in TransceivePacket_loop tx (Some (buf(i := dIn))) len (Suc i) hw4))))
      else if rx = None then
        (let w3 = waitForTxEmpty hw
         in (True, rx, (snd w3)\<lparr>dataReads := Suc (dataReads (snd w3))\<rparr>))
      else (True, rx, hw))"
  by pat_completeness auto
termination
  by (relation "measure (\<lambda>(tx, rx, len, i, hw). len - i)") auto

definition TransceivePacket ::
  "(nat \<Rightarrow> 8 word) option \<Rightarrow> (nat \<Rightarrow> 8 word) option \<Rightarrow> nat \<Rightarrow> sercom
     \<Rightarrow> bool \<times> (nat \<Rightarrow> 8 word) option \<times> sercom" where
  "TransceivePacket tx rx len hw = TransceivePacket_loop tx rx len 0 hw"

text \<open>
  The register-field macros of the vendor's device header and the configured core clock
  are not in the sources; they are parameters.
\<close>

record sercom_consts =
  SERCOM_SPI_CTRLA_MODE_3 :: "32 word"
  SERCOM_SPI_CTRLA_DIPO_3 :: "32 word"
  SERCOM_SPI_CTRLA_DOPO_0 :: "32 word"
  SERCOM_SPI_CTRLA_FORM_0 :: "32 word"
  SERCOM_SPI_CTRLA_CPOL :: "32 word"
  SERCOM_SPI_CTRLA_CPHA :: "32 word"
  SERCOM_SPI_BAUD_BAUD :: "32 word \<Rightarrow> 32 word"
  CONF_GCLK_SERCOM0_CORE_FREQUENCY :: "32 word"

record SharedSpiDevice =
  clockFrequency :: "32 word"
  mode :: "8 word"
  csActivePolarity :: bool

definition DisableSpi :: "sercom \<Rightarrow> sercom" where
  "DisableSpi hw = hw\<lparr>RXEN := False\<rparr>"

definition EnableSpi :: "sercom \<Rightarrow> sercom" where
  "EnableSpi hw = hw\<lparr>RXEN := True\<rparr>"

definition regCtrlA :: "sercom_consts \<Rightarrow> 8 word \<Rightarrow> 32 word" where
  "regCtrlA c m =
     (let a0 = SERCOM_SPI_CTRLA_MODE_3 c OR SERCOM_SPI_CTRLA_DIPO_3 c OR SERCOM_SPI_CTRLA_DOPO_0 c
                 OR SERCOM_SPI_CTRLA_FORM_0 c OR SERCOM_SPI_CTRLA_CPOL c OR SERCOM_SPI_CTRLA_CPHA c;
          a1 = (if m AND 2 \<noteq> 0 then a0 OR SERCOM_SPI_CTRLA_CPOL c else a0)
      in if m AND 1 = 0 then a1 OR SERCOM_SPI_CTRLA_CPHA c else a1)"

definition SetupMaster :: "sercom_consts \<Rightarrow> SharedSpiDevice \<Rightarrow> sercom \<Rightarrow> sercom" where
  "SetupMaster c dev hw =
     (let hw1 = DisableSpi hw;
          hw2 = hw1\<lparr>BAUD := SERCOM_SPI_BAUD_BAUD c
                   (CONF_GCLK_SERCOM0_CORE_FREQUENCY c div (2 * clockFrequency dev) - 1)\<rparr>;
          hw3 = hw2\<lparr>CTRLA := regCtrlA c (mode dev)\<rparr>
      in EnableSpi hw3)"

section \<open>Linear analog sensor (LinearAnalogSensor.cpp)\<close>

text \<open>The two values of \<open>TemperatureError\<close> that \<open>Poll\<close> uses.\<close>

datatype TemperatureError = success | notReady

text \<open>The two overloads of \<open>SetResult\<close>, as the call that \<open>Poll\<close> makes.\<close>

datatype set_result = SetResult real TemperatureError | SetResultError TemperatureError

record ThermistorAveragingFilter =
  IsValid :: bool
  GetSum :: "32 word"
  NumAveraged :: "32 word"

record LinearAnalogSensor =
  lowTemp :: real
  highTemp :: real
  filtered :: bool
  adcFilterChannel :: int
  linearIncreasePerCount :: real

definition AdcOversampleBits :: nat where
  "AdcOversampleBits = 2"

text \<open>
  \<open>getAdcFilter\<close> is \<open>Platform::GetAdcFilter\<close> and \<open>readAnalog\<close> the value of
  \<open>port.ReadAnalog()\<close>.
\<close>

definition Poll ::
  "(real \<Rightarrow> real) \<Rightarrow> (int \<Rightarrow> ThermistorAveragingFilter) \<Rightarrow> 16 word \<Rightarrow> LinearAnalogSensor
     \<Rightarrow> set_result" where
  "Poll r getAdcFilter readAnalog sensor =
     (if filtered sensor \<and> 0 \<le> adcFilterChannel sensor then
        (let tempFilter = getAdcFilter (adcFilterChannel sensor)
         in if IsValid tempFilter then
              (let averagedTempReading =
                     GetSum tempFilter div drop_bit AdcOversampleBits (NumAveraged tempFilter)
               in SetResult
                    (fadd r (fmul r (float_of_int32 r averagedTempReading)
                                    (linearIncreasePerCount sensor))
                            (lowTemp sensor))
                    success)
            else SetResultError notReady)
      else
        SetResult
          (fadd r (fmul r (float_of_uint16 r readAnalog) (linearIncreasePerCount sensor))
                  (lowTemp sensor))
          success)"

section \<open>Concrete inputs\<close>

text \<open>
  The state at start-up: zero-initialised statics, \<open>newTuningMove\<close> initialised to
  \<open>true\<close>, no tuning requested.
\<close>

definition startup :: closed_loop where
  "startup =
     \<lparr>desiredStepPhase = 0, tuning = 0, tuningError = 0, newTuningMove = True,
      bt_state = forwardInitial, initialStepPhase = 0, initialEncoderReading = 0,
      stepCounter = 0, regressionAccumulator = 0, readingAccumulator = 0,
      targetPosition = 0, positionCounter = 0, readings = 0, events = []\<rparr>"

text \<open>
  Values for the three constants that are not in the sources: distinct request bits for
  basic tuning and encoder calibration.
\<close>

definition example_consts :: tune_consts where
  "example_consts =
     \<lparr>BASIC_TUNING_MANOEUVRE = 1, ENCODER_CALIBRATION_MANOEUVRE = 2,
      TUNE_ERR_NOT_DONE_BASIC = 1\<rparr>"

text \<open>An absolute 14-bit encoder whose \<open>GetReading\<close> always returns \<open>y\<close>.\<close>

definition constant_encoder :: "32 word \<Rightarrow> encoder_hw" where
  "constant_encoder y =
     \<lparr>GetPositioningType = absolute, GetReading = (\<lambda>k. y), GetMaxValue = 16384,
      GetLUTResolution = 16\<rparr>"

text \<open>
  A perfectly linear absolute encoder: the phase advances by 8 between readings and the
  reading advances by 8 with it, one count per unit of phase.
\<close>

definition linear_encoder :: encoder_hw where
  "linear_encoder =
     \<lparr>GetPositioningType = absolute, GetReading = (\<lambda>k. 8 * of_nat k), GetMaxValue = 16384,
      GetLUTResolution = 16\<rparr>"

definition direct_env :: tick_env where
  "direct_env =
     \<lparr>rnd = exact, GetDriverMode = direct, encoder = Some (constant_encoder 0),
      currentEncoderReading = 0, pulsePerStepExternal = 1\<rparr>"

text \<open>
  Two bus traces: one on which no flag is ever set, and one on which the transmitter is
  always ready while neither transmit-complete nor receive-complete is ever set.
\<close>

definition never_ready_bus :: sercom where
  "never_ready_bus =
     \<lparr>INTFLAG = (\<lambda>k. \<lparr>DRE = False, TXC = False, RXC = False\<rparr>), flagReads = 0,
      DATA_in = (\<lambda>k. 0xAB), dataReads = 0, DATA_out = [], BAUD = 0, CTRLA = 0, RXEN = True\<rparr>"

definition transmit_only_bus :: sercom where
  "transmit_only_bus =
     \<lparr>INTFLAG = (\<lambda>k. \<lparr>DRE = True, TXC = False, RXC = False\<rparr>), flagReads = 0,
      DATA_in = (\<lambda>k. 0xAB), dataReads = 0, DATA_out = [], BAUD = 0, CTRLA = 0, RXEN = True\<rparr>"

section \<open>Properties of the dispatcher\<close>

text \<open>
  A step of basic tuning touches neither bitmask, nor the statics of encoder calibration,
  nor the dispatcher's flag.
\<close>

lemma BasicTuning_frame:
  "tuning (snd (BasicTuning r enc f s)) = tuning s"
  "tuningError (snd (BasicTuning r enc f s)) = tuningError s"
  "targetPosition (snd (BasicTuning r enc f s)) = targetPosition s"
  "positionCounter (snd (BasicTuning r enc f s)) = positionCounter s"
  "newTuningMove (snd (BasicTuning r enc f s)) = newTuningMove s"
  by (simp_all add: BasicTuning_def collect_def Let_def split: BasicTuningState.split)

text \<open>
  C3. Whatever the tuning bitmask holds, \<open>PerformTune\<close> called while the driver is not in
  direct mode, or while there is no encoder, sets the system-error bit of the tuning-error
  bitmask and zeroes the tuning bitmask; nothing else of the state changes, so no manoeuvre
  is stepped and no call is made.
\<close>

theorem PerformTune_precondition:
  assumes "GetDriverMode e \<noteq> direct \<or> encoder e = None"
  shows "PerformTune k e s = s\<lparr>tuningError := tuningError s OR TUNE_ERR_SYSTEM_ERROR, tuning := 0\<rparr>
       \<and> tuning (PerformTune k e s) = 0
       \<and> tuningError (PerformTune k e s) AND TUNE_ERR_SYSTEM_ERROR = TUNE_ERR_SYSTEM_ERROR
       \<and> events (PerformTune k e s) = events s"
proof -
  have eq: "PerformTune k e s = s\<lparr>tuningError := tuningError s OR TUNE_ERR_SYSTEM_ERROR, tuning := 0\<rparr>"
    using assms by (auto simp: PerformTune_def)
  have "(tuningError s OR TUNE_ERR_SYSTEM_ERROR) AND TUNE_ERR_SYSTEM_ERROR = TUNE_ERR_SYSTEM_ERROR"
    by (simp add: bit_eq_iff bit_simps)
  with eq show ?thesis by simp
qed

theorem PerformTune_precondition_witness:
  "GetDriverMode (direct_env\<lparr>GetDriverMode := otherMode\<rparr>) = otherMode
   \<and> tuning (PerformTune example_consts (direct_env\<lparr>GetDriverMode := otherMode\<rparr>) (startup\<lparr>tuning := 3\<rparr>)) = 0
   \<and> tuningError (PerformTune example_consts (direct_env\<lparr>GetDriverMode := otherMode\<rparr>) (startup\<lparr>tuning := 3\<rparr>)) = 128
   \<and> encoder (direct_env\<lparr>encoder := None\<rparr>) = None
   \<and> tuning (PerformTune example_consts (direct_env\<lparr>encoder := None\<rparr>) (startup\<lparr>tuning := 64\<rparr>)) = 0
   \<and> events (PerformTune example_consts (direct_env\<lparr>encoder := None\<rparr>) (startup\<lparr>tuning := 64\<rparr>)) = []"
  using PerformTune_precondition [of "direct_env\<lparr>GetDriverMode := otherMode\<rparr>" example_consts "startup\<lparr>tuning := 3\<rparr>"]
        PerformTune_precondition [of "direct_env\<lparr>encoder := None\<rparr>" example_consts "startup\<lparr>tuning := 64\<rparr>"]
  by (simp add: direct_env_def startup_def TUNE_ERR_SYSTEM_ERROR_def)

lemma and_sub_mask:
  fixes a b m :: "8 word"
  assumes "m AND b = 0" "a AND m = a"
  shows "a AND b = 0"
proof -
  have "a AND b = (a AND m) AND b" using assms(2) by simp
  also have "\<dots> = a AND (m AND b)" by (simp add: and.assoc)
  finally show ?thesis using assms(1) by simp
qed

lemma and_not_disjoint:
  fixes t b c :: "8 word"
  assumes "b AND c = 0"
  shows "(t AND NOT b) AND c = t AND c"
proof (rule bit_eqI)
  fix n
  have "\<not> (bit b n \<and> bit c n)"
    using assms by (metis bit_and_iff bit_0_eq bot_apply bot_bool_def)
  then show "bit ((t AND NOT b) AND c) n = bit (t AND c) n"
    by (auto simp: bit_simps dest: bit_imp_possible_bit)
qed

text \<open>
  C2. In direct mode with an encoder, and with distinct request bits for basic tuning and
  encoder calibration: while the basic-tuning bit is set, a tick steps basic tuning and
  nothing else (after clearing the lookup table when the encoder is absolute and calibration
  is pending too), whatever other bits are set; the statics of encoder calibration are
  untouched, and the encoder-calibration bit is as it was after the tick. If the step
  reports finished, exactly the basic-tuning request bit and the not-done-basic error bit
  are cleared; if not, both bitmasks are unchanged, so the next tick steps basic tuning
  again. With the basic-tuning bit clear, a finished step of encoder calibration zeroes the
  tuning bitmask, and so does the step manoeuvre, which always finishes.
\<close>

theorem PerformTune_priority:
  assumes "GetDriverMode e = direct" and "encoder e = Some enc"
    and "BASIC_TUNING_MANOEUVRE k AND ENCODER_CALIBRATION_MANOEUVRE k = 0"
  shows
    "(tuning s AND BASIC_TUNING_MANOEUVRE k \<noteq> 0 \<longrightarrow>
        (let pre = (if GetPositioningType enc = absolute
                       \<and> tuning s AND ENCODER_CALIBRATION_MANOEUVRE k \<noteq> 0
                    then s\<lparr>events := ClearLUT # events s\<rparr> else s);
             res = BasicTuning (rnd e) enc (newTuningMove s) pre
         in PerformTune k e s =
              (snd res)\<lparr>newTuningMove := fst res,
                 tuningError := (if fst res then tuningError s AND NOT (TUNE_ERR_NOT_DONE_BASIC k)
                                 else tuningError s),
                 tuning := (if fst res then tuning s AND NOT (BASIC_TUNING_MANOEUVRE k)
                            else tuning s)\<rparr>)
        \<and> tuning (PerformTune k e s) AND ENCODER_CALIBRATION_MANOEUVRE k
            = tuning s AND ENCODER_CALIBRATION_MANOEUVRE k
        \<and> targetPosition (PerformTune k e s) = targetPosition s
        \<and> positionCounter (PerformTune k e s) = positionCounter s)
   \<and> (tuning s AND BASIC_TUNING_MANOEUVRE k = 0
        \<and> tuning s AND ENCODER_CALIBRATION_MANOEUVRE k \<noteq> 0 \<longrightarrow>
        PerformTune k e s =
          (snd (EncoderCalibration e enc (newTuningMove s) s))
            \<lparr>newTuningMove := fst (EncoderCalibration e enc (newTuningMove s) s),
             tuning := (if fst (EncoderCalibration e enc (newTuningMove s) s) then 0 else tuning s)\<rparr>)
   \<and> (tuning s AND BASIC_TUNING_MANOEUVRE k = 0
        \<and> tuning s AND ENCODER_CALIBRATION_MANOEUVRE k = 0
        \<and> tuning s AND STEP_MANOEUVRE \<noteq> 0 \<longrightarrow>
        PerformTune k e s =
          s\<lparr>events := AdjustTargetMotorSteps 4 # events s, newTuningMove := True, tuning := 0\<rparr>)"
proof (intro conjI impI)
  assume b: "tuning s AND BASIC_TUNING_MANOEUVRE k \<noteq> 0"
  define pre where "pre = (if GetPositioningType enc = absolute
                       \<and> tuning s AND ENCODER_CALIBRATION_MANOEUVRE k \<noteq> 0
                    then s\<lparr>events := ClearLUT # events s\<rparr> else s)"
  define res where "res = BasicTuning (rnd e) enc (newTuningMove s) pre"
  have pre_eq: "tuning pre = tuning s" "tuningError pre = tuningError s"
      "targetPosition pre = targetPosition s" "positionCounter pre = positionCounter s"
      "newTuningMove pre = newTuningMove s"
    by (simp_all add: pre_def)
  have fr: "tuning (snd res) = tuning s" "tuningError (snd res) = tuningError s"
      "targetPosition (snd res) = targetPosition s" "positionCounter (snd res) = positionCounter s"
    by (simp_all add: res_def BasicTuning_frame pre_eq)
  have eq: "PerformTune k e s =
              (snd res)\<lparr>newTuningMove := fst res,
                 tuningError := (if fst res then tuningError s AND NOT (TUNE_ERR_NOT_DONE_BASIC k)
                                 else tuningError s),
                 tuning := (if fst res then tuning s AND NOT (BASIC_TUNING_MANOEUVRE k)
                            else tuning s)\<rparr>"
  proof -
    have unf: "PerformTune k e s =
        (if fst res
         then (snd res)\<lparr>newTuningMove := True,
                 tuningError := tuningError (snd res) AND NOT (TUNE_ERR_NOT_DONE_BASIC k),
                 tuning := tuning (snd res) AND NOT (BASIC_TUNING_MANOEUVRE k)\<rparr>
         else (snd res)\<lparr>newTuningMove := False\<rparr>)"
      using assms(1,2) b
      by (simp add: PerformTune_def Let_def pre_def res_def split: prod.split)
    show ?thesis
      using fr(1,2) [symmetric] by (cases "fst res") (simp_all add: unf)
  qed
  show "let pre = (if GetPositioningType enc = absolute
                       \<and> tuning s AND ENCODER_CALIBRATION_MANOEUVRE k \<noteq> 0
                    then s\<lparr>events := ClearLUT # events s\<rparr> else s);
             res = BasicTuning (rnd e) enc (newTuningMove s) pre
         in PerformTune k e s =
              (snd res)\<lparr>newTuningMove := fst res,
                 tuningError := (if fst res then tuningError s AND NOT (TUNE_ERR_NOT_DONE_BASIC k)
                                 else tuningError s),
                 tuning := (if fst res then tuning s AND NOT (BASIC_TUNING_MANOEUVRE k)
                            else tuning s)\<rparr>"
    using eq by (simp add: Let_def pre_def res_def)
  show "tuning (PerformTune k e s) AND ENCODER_CALIBRATION_MANOEUVRE k
            = tuning s AND ENCODER_CALIBRATION_MANOEUVRE k"
    using eq and_not_disjoint [OF assms(3)] by simp
  show "targetPosition (PerformTune k e s) = targetPosition s"
    using eq fr by simp
  show "positionCounter (PerformTune k e s) = positionCounter s"
    using eq fr by simp
next
  assume a: "tuning s AND BASIC_TUNING_MANOEUVRE k = 0
        \<and> tuning s AND ENCODER_CALIBRATION_MANOEUVRE k \<noteq> 0"
  define rc where "rc = EncoderCalibration e enc (newTuningMove s) s"
  have frc: "tuning s = tuning (snd rc)"
    by (simp add: rc_def EncoderCalibration_def Let_def)
  have unf: "PerformTune k e s =
      (if fst rc then (snd rc)\<lparr>newTuningMove := True, tuning := 0\<rparr>
       else (snd rc)\<lparr>newTuningMove := False\<rparr>)"
    using assms(1,2) a by (simp add: PerformTune_def Let_def rc_def split: prod.split)
  have "PerformTune k e s =
          (snd rc)\<lparr>newTuningMove := fst rc, tuning := (if fst rc then 0 else tuning s)\<rparr>"
    using frc by (cases "fst rc") (simp_all add: unf)
  then show "PerformTune k e s =
          (snd (EncoderCalibration e enc (newTuningMove s) s))
            \<lparr>newTuningMove := fst (EncoderCalibration e enc (newTuningMove s) s),
             tuning := (if fst (EncoderCalibration e enc (newTuningMove s) s) then 0 else tuning s)\<rparr>"
    by (simp add: rc_def)
next
  assume "tuning s AND BASIC_TUNING_MANOEUVRE k = 0
        \<and> tuning s AND ENCODER_CALIBRATION_MANOEUVRE k = 0
        \<and> tuning s AND STEP_MANOEUVRE \<noteq> 0"
  then show "PerformTune k e s =
          s\<lparr>events := AdjustTargetMotorSteps 4 # events s, newTuningMove := True, tuning := 0\<rparr>"
    using assms(1,2) by (simp add: PerformTune_def Step_def Let_def)
qed


theorem PerformTune_priority_witness:
  "GetDriverMode direct_env = direct \<and> encoder direct_env = Some (constant_encoder 0)
   \<and> BASIC_TUNING_MANOEUVRE example_consts AND ENCODER_CALIBRATION_MANOEUVRE example_consts = 0
   \<and> tuning (startup\<lparr>tuning := 3\<rparr>) AND BASIC_TUNING_MANOEUVRE example_consts = 1
   \<and> tuning (PerformTune example_consts direct_env (startup\<lparr>tuning := 3\<rparr>)) = 3
   \<and> stepCounter (PerformTune example_consts direct_env (startup\<lparr>tuning := 3\<rparr>)) = 1
   \<and> positionCounter (PerformTune example_consts direct_env (startup\<lparr>tuning := 3\<rparr>)) = 0
   \<and> tuning (PerformTune example_consts direct_env
         (startup\<lparr>tuning := 3, tuningError := 1, newTuningMove := False, bt_state := reverse,
                  stepCounter := 512\<rparr>)) = 2
   \<and> tuningError (PerformTune example_consts direct_env
         (startup\<lparr>tuning := 3, tuningError := 1, newTuningMove := False, bt_state := reverse,
                  stepCounter := 512\<rparr>)) = 0
   \<and> tuning (startup\<lparr>tuning := 2, newTuningMove := False, targetPosition := 16384\<rparr>)
         AND ENCODER_CALIBRATION_MANOEUVRE example_consts = 2
   \<and> tuning (PerformTune example_consts direct_env
         (startup\<lparr>tuning := 2, newTuningMove := False, targetPosition := 16384\<rparr>)) = 0
   \<and> tuning (startup\<lparr>tuning := 66\<rparr>) AND ENCODER_CALIBRATION_MANOEUVRE example_consts = 2
   \<and> tuning (PerformTune example_consts direct_env (startup\<lparr>tuning := 66\<rparr>)) = 66
   \<and> tuning (startup\<lparr>tuning := 64\<rparr>) AND STEP_MANOEUVRE = 64
   \<and> tuning (PerformTune example_consts direct_env (startup\<lparr>tuning := 64\<rparr>)) = 0"
proof -
  have h1: "GetDriverMode direct_env = direct"
    and h2: "encoder direct_env = Some (constant_encoder 0)"
    by (simp_all add: direct_env_def)
  have h3: "BASIC_TUNING_MANOEUVRE example_consts AND ENCODER_CALIBRATION_MANOEUVRE example_consts = 0"
    by (simp add: example_consts_def)
  note w = PerformTune_priority [OF h1 h2 h3]
  show ?thesis
    using h1 h2 h3
      w [of "startup\<lparr>tuning := 3\<rparr>"]
      w [of "startup\<lparr>tuning := 3, tuningError := 1, newTuningMove := False, bt_state := reverse,
                  stepCounter := 512\<rparr>"]
      w [of "startup\<lparr>tuning := 2, newTuningMove := False, targetPosition := 16384\<rparr>"]
      w [of "startup\<lparr>tuning := 66\<rparr>"]
      w [of "startup\<lparr>tuning := 64\<rparr>"]
    by (simp add: startup_def example_consts_def direct_env_def constant_encoder_def
          STEP_MANOEUVRE_def BasicTuning_def collect_def EncoderCalibration_def Let_def
          NumSamples_def NumDummySteps_def PhaseIncrement_def calibrationPhase_def
          c_rem_def c_div_def)
qed

text \<open>
  C4, as stated, fails: a request for only the continuous-phase-increase manoeuvre, or only
  the Ziegler-Nichols manoeuvre, made at start-up in direct mode with an encoder, leaves
  exactly the start-up state: the request is cleared, the tuning-error bitmask is still
  zero and no call has been made. Nothing distinguishes it from success.
\<close>

theorem PerformTune_unimplemented_counterexample:
  "PerformTune example_consts direct_env (startup\<lparr>tuning := CONTINUOUS_PHASE_INCREASE_MANOEUVRE\<rparr>) = startup
   \<and> PerformTune example_consts direct_env (startup\<lparr>tuning := ZIEGLER_NICHOLS_MANOEUVRE\<rparr>) = startup
   \<and> tuningError startup = 0 \<and> events startup = []"
  by (simp add: PerformTune_def direct_env_def startup_def example_consts_def
        CONTINUOUS_PHASE_INCREASE_MANOEUVRE_def ZIEGLER_NICHOLS_MANOEUVRE_def STEP_MANOEUVRE_def)

text \<open>
  C4, amended. In direct mode with an encoder, when the tuning bitmask requests only the
  continuous-phase-increase manoeuvre or only the Ziegler-Nichols manoeuvre (bits that the
  basic-tuning and encoder-calibration requests do not use), \<open>PerformTune\<close> zeroes the
  tuning bitmask and sets \<open>newTuningMove\<close>; the tuning-error bitmask is unchanged and
  no manoeuvre is stepped. No failure is reported.
\<close>

theorem PerformTune_unimplemented:
  assumes "GetDriverMode e = direct" and "encoder e = Some enc"
    and "tuning s = CONTINUOUS_PHASE_INCREASE_MANOEUVRE \<or> tuning s = ZIEGLER_NICHOLS_MANOEUVRE"
    and "(CONTINUOUS_PHASE_INCREASE_MANOEUVRE OR ZIEGLER_NICHOLS_MANOEUVRE) AND BASIC_TUNING_MANOEUVRE k = 0"
    and "(CONTINUOUS_PHASE_INCREASE_MANOEUVRE OR ZIEGLER_NICHOLS_MANOEUVRE) AND ENCODER_CALIBRATION_MANOEUVRE k = 0"
  shows "PerformTune k e s = s\<lparr>tuning := 0, newTuningMove := True\<rparr>
       \<and> tuning (PerformTune k e s) = 0
       \<and> tuningError (PerformTune k e s) = tuningError s
       \<and> events (PerformTune k e s) = events s"
proof -
  have sub: "tuning s AND (CONTINUOUS_PHASE_INCREASE_MANOEUVRE OR ZIEGLER_NICHOLS_MANOEUVRE) = tuning s"
    using assms(3)
    by (auto simp: CONTINUOUS_PHASE_INCREASE_MANOEUVRE_def ZIEGLER_NICHOLS_MANOEUVRE_def)
  have b: "tuning s AND BASIC_TUNING_MANOEUVRE k = 0"
    using assms(4) sub by (rule and_sub_mask)
  have c: "tuning s AND ENCODER_CALIBRATION_MANOEUVRE k = 0"
    using assms(5) sub by (rule and_sub_mask)
  have st: "tuning s AND STEP_MANOEUVRE = 0"
    using assms(3)
    by (auto simp: CONTINUOUS_PHASE_INCREASE_MANOEUVRE_def ZIEGLER_NICHOLS_MANOEUVRE_def
          STEP_MANOEUVRE_def)
  have "PerformTune k e s = s\<lparr>tuning := 0, newTuningMove := True\<rparr>"
    using assms(1,2) b c st by (simp add: PerformTune_def)
  then show ?thesis by simp
qed

theorem PerformTune_unimplemented_witness:
  "GetDriverMode direct_env = direct \<and> encoder direct_env = Some (constant_encoder 0)
   \<and> (CONTINUOUS_PHASE_INCREASE_MANOEUVRE OR ZIEGLER_NICHOLS_MANOEUVRE) AND BASIC_TUNING_MANOEUVRE example_consts = 0
   \<and> (CONTINUOUS_PHASE_INCREASE_MANOEUVRE OR ZIEGLER_NICHOLS_MANOEUVRE) AND ENCODER_CALIBRATION_MANOEUVRE example_consts = 0
   \<and> tuning (PerformTune example_consts direct_env (startup\<lparr>tuning := ZIEGLER_NICHOLS_MANOEUVRE, tuningError := 1\<rparr>)) = 0
   \<and> tuningError (PerformTune example_consts direct_env (startup\<lparr>tuning := ZIEGLER_NICHOLS_MANOEUVRE, tuningError := 1\<rparr>)) = 1
   \<and> events (PerformTune example_consts direct_env (startup\<lparr>tuning := ZIEGLER_NICHOLS_MANOEUVRE, tuningError := 1\<rparr>)) = []"
proof -
  have h1: "GetDriverMode direct_env = direct" and h2: "encoder direct_env = Some (constant_encoder 0)"
    by (simp_all add: direct_env_def)
  have h4: "(CONTINUOUS_PHASE_INCREASE_MANOEUVRE OR ZIEGLER_NICHOLS_MANOEUVRE) AND BASIC_TUNING_MANOEUVRE example_consts = 0"
   and h5: "(CONTINUOUS_PHASE_INCREASE_MANOEUVRE OR ZIEGLER_NICHOLS_MANOEUVRE) AND ENCODER_CALIBRATION_MANOEUVRE example_consts = 0"
    by (simp_all add: example_consts_def CONTINUOUS_PHASE_INCREASE_MANOEUVRE_def ZIEGLER_NICHOLS_MANOEUVRE_def)
  have h3: "tuning (startup\<lparr>tuning := ZIEGLER_NICHOLS_MANOEUVRE, tuningError := 1\<rparr>) = CONTINUOUS_PHASE_INCREASE_MANOEUVRE
      \<or> tuning (startup\<lparr>tuning := ZIEGLER_NICHOLS_MANOEUVRE, tuningError := 1\<rparr>) = ZIEGLER_NICHOLS_MANOEUVRE"
    by simp
  show ?thesis
    using PerformTune_unimplemented [OF h1 h2 h3 h4 h5] h1 h2 h4 h5
    by (simp add: startup_def)
qed

section \<open>Properties of encoder calibration\<close>

lemma c_rem_pos: "0 \<le> a \<Longrightarrow> c_rem a 4096 = a mod 4096"
  by (cases "a = 0") (simp_all add: c_rem_def c_div_def minus_div_mult_eq_mod)

lemma c_rem_neg: "a < 0 \<Longrightarrow> c_rem a 4096 = - ((- a) mod 4096)"
proof -
  assume "a < 0"
  then have "c_rem a 4096 = a + ((- a) div 4096) * 4096"
    by (simp add: c_rem_def c_div_def)
  also have "\<dots> = - ((- a) - ((- a) div 4096) * 4096)" by simp
  also have "\<dots> = - ((- a) mod 4096)" by (simp add: minus_div_mult_eq_mod)
  finally show ?thesis .
qed

lemma uint_word_of_int_16:
  "0 \<le> v \<Longrightarrow> v < 65536 \<Longrightarrow> uint (word_of_int v :: 16 word) = v"
  by (simp add: uint_word_of_int take_bit_int_eq_self)

lemma calibrationPhase_value:
  "uint (calibrationPhase pc) =
     (if 0 < sint pc then sint pc mod 4096 else 4096 - (- sint pc) mod 4096)"
proof (cases "0 < sint pc")
  case True
  define v where "v = sint pc mod 4096"
  have "calibrationPhase pc = word_of_int v"
    using True by (simp add: calibrationPhase_def c_rem_pos v_def)
  moreover have "0 \<le> v" "v < 65536"
    by (simp_all add: v_def)
  ultimately have "uint (calibrationPhase pc) = v"
    by (simp add: uint_word_of_int_16)
  then show ?thesis
    using True by (simp add: v_def)
next
  case False
  define v where "v = 4096 - (- sint pc) mod 4096"
  have "c_rem (sint pc) 4096 = - ((- sint pc) mod 4096)"
    using False by (cases "sint pc = 0") (simp_all add: c_rem_neg c_rem_pos)
  then have "calibrationPhase pc = word_of_int v"
    using False by (simp add: calibrationPhase_def v_def)
  moreover have "0 \<le> (- sint pc) mod 4096" "(- sint pc) mod 4096 < 4096"
    by simp_all
  then have "0 \<le> v" "v < 65536"
    unfolding v_def by linarith+
  ultimately have "uint (calibrationPhase pc) = v"
    by (simp add: uint_word_of_int_16)
  then show ?thesis
    using False by (simp add: v_def)
qed

lemma calibrationPhase_range:
  "uint (calibrationPhase pc) \<le> 4096
   \<and> (uint (calibrationPhase pc) = 4096 \<longleftrightarrow> sint pc \<le> 0 \<and> 4096 dvd sint pc)"
proof -
  have a: "0 \<le> sint pc mod 4096" "sint pc mod 4096 < 4096"
    and b: "0 \<le> (- sint pc) mod 4096" "(- sint pc) mod 4096 < 4096" by simp_all
  have c: "(- sint pc) mod 4096 = 0 \<longleftrightarrow> 4096 dvd sint pc"
    by (simp add: mod_eq_0_iff_dvd)
  show ?thesis
    using a b c by (auto simp: calibrationPhase_value)
qed

text \<open>
  C5. The phase that a non-finishing step of encoder calibration commands is the position
  counter modulo 4096 when the counter is positive, and 4096 minus the remainder of its
  magnitude otherwise (\<open>calibrationPhase_value\<close>). It is at most 4096, and it is 4096,
  outside the range 0 to 4095, exactly when the counter is zero or a negative multiple of
  4096 (\<open>calibrationPhase_range\<close>). The first step after start-up with the encoder
  reading equal to the first target leaves the counter at zero and commands phase 4096.
\<close>

theorem EncoderCalibration_phase_4096:
  "fst (EncoderCalibration direct_env (constant_encoder 0) True startup) = False
   \<and> positionCounter (snd (EncoderCalibration direct_env (constant_encoder 0) True startup)) = 0
   \<and> desiredStepPhase (snd (EncoderCalibration direct_env (constant_encoder 0) True startup)) = 4096
   \<and> hd (events (snd (EncoderCalibration direct_env (constant_encoder 0) True startup)))
       = SetMotorPhase 4096 1"
  by (simp add: EncoderCalibration_def direct_env_def constant_encoder_def startup_def Let_def
        calibrationPhase_def c_rem_def c_div_def)

section \<open>Properties of the SPI set-up\<close>

lemma regCtrlA_constant:
  "regCtrlA c m =
     SERCOM_SPI_CTRLA_MODE_3 c OR SERCOM_SPI_CTRLA_DIPO_3 c OR SERCOM_SPI_CTRLA_DOPO_0 c
       OR SERCOM_SPI_CTRLA_FORM_0 c OR SERCOM_SPI_CTRLA_CPOL c OR SERCOM_SPI_CTRLA_CPHA c"
  by (simp add: regCtrlA_def Let_def bit_eq_iff bit_simps) blast

text \<open>
  C7. \<open>SetupMaster\<close> starts from a control word that already has the clock-polarity and
  clock-phase bits set, so the two tests of the mode bits change nothing: for every mode the
  word written to CTRLA has both bits set, and devices of different modes (0 and 3, or any
  two) get the same CTRLA.
\<close>

theorem SetupMaster_ignores_mode:
  "CTRLA (SetupMaster c dev hw) AND SERCOM_SPI_CTRLA_CPOL c = SERCOM_SPI_CTRLA_CPOL c
   \<and> CTRLA (SetupMaster c dev hw) AND SERCOM_SPI_CTRLA_CPHA c = SERCOM_SPI_CTRLA_CPHA c
   \<and> CTRLA (SetupMaster c (dev\<lparr>mode := 0\<rparr>) hw) = CTRLA (SetupMaster c (dev\<lparr>mode := 3\<rparr>) hw)
   \<and> CTRLA (SetupMaster c (dev\<lparr>mode := m\<rparr>) hw) = CTRLA (SetupMaster c (dev\<lparr>mode := m'\<rparr>) hw)"
proof -
  have "CTRLA (SetupMaster c d hw) =
     SERCOM_SPI_CTRLA_MODE_3 c OR SERCOM_SPI_CTRLA_DIPO_3 c OR SERCOM_SPI_CTRLA_DOPO_0 c
       OR SERCOM_SPI_CTRLA_FORM_0 c OR SERCOM_SPI_CTRLA_CPOL c OR SERCOM_SPI_CTRLA_CPHA c" for d
    by (simp add: SetupMaster_def Let_def EnableSpi_def DisableSpi_def regCtrlA_constant)
  then show ?thesis
    by (simp add: bit_eq_iff bit_simps) blast
qed

section \<open>Properties of the linear analog sensor\<close>

text \<open>
  C10. When \<open>Poll\<close> runs in filtered mode with a valid filter channel and the averaging
  filter is not valid, the call made is \<open>SetResult(TemperatureError::notReady)\<close>,
  whatever the filter's sum and count are: no temperature is computed.
\<close>

theorem Poll_not_ready:
  assumes "filtered sensor" and "0 \<le> adcFilterChannel sensor"
    and "\<not> IsValid (getAdcFilter (adcFilterChannel sensor))"
  shows "Poll r getAdcFilter readAnalog sensor = SetResultError notReady"
  using assms by (simp add: Poll_def)

theorem Poll_not_ready_witness:
  "filtered \<lparr>lowTemp = 0, highTemp = 100, filtered = True, adcFilterChannel = 2,
              linearIncreasePerCount = 1\<rparr>
   \<and> 0 \<le> adcFilterChannel \<lparr>lowTemp = 0, highTemp = 100, filtered = True, adcFilterChannel = 2,
              linearIncreasePerCount = 1\<rparr>
   \<and> IsValid ((\<lambda>ch. \<lparr>IsValid = False, GetSum = 12345, NumAveraged = 8\<rparr>) 2) = False
   \<and> Poll exact (\<lambda>ch. \<lparr>IsValid = False, GetSum = 12345, NumAveraged = 8\<rparr>) 77
        \<lparr>lowTemp = 0, highTemp = 100, filtered = True, adcFilterChannel = 2,
         linearIncreasePerCount = 1\<rparr>
       = SetResultError notReady"
  using Poll_not_ready [of "\<lparr>lowTemp = 0, highTemp = 100, filtered = True, adcFilterChannel = 2,
              linearIncreasePerCount = 1\<rparr>"
          "\<lambda>ch. \<lparr>IsValid = False, GetSum = 12345, NumAveraged = 8\<rparr>" exact 77]
  by simp

section \<open>Properties of the SPI transfer\<close>

declare wait_predec.simps [simp del]
declare waitForTxEmpty_loop.simps [simp del]
declare TransceivePacket_loop.simps [simp del]

lemma poll_simps [simp]:
  "INTFLAG (poll hw) = INTFLAG hw"
  "flagReads (poll hw) = Suc (flagReads hw)"
  "dataReads (poll hw) = dataReads hw"
  "DATA_in (poll hw) = DATA_in hw"
  "DATA_out (poll hw) = DATA_out hw"
  by (simp_all add: poll_def)

lemma poll_flagReads_update [simp]:
  "(poll hw)\<lparr>flagReads := n\<rparr> = hw\<lparr>flagReads := n\<rparr>"
  by (simp add: poll_def)

text \<open>A wait changes nothing but the number of flag reads.\<close>

lemma wait_predec_frame:
  "snd (wait_predec flag t hw) = hw\<lparr>flagReads := flagReads (snd (wait_predec flag t hw))\<rparr>"
proof (induction flag t hw rule: wait_predec.induct)
  case (1 flag timeout hw)
  show ?case
  proof (cases "flag (INTFLAG hw (flagReads hw)) \<or> timeout - 1 = 0")
    case True
    then show ?thesis
      by (subst (1 2) wait_predec.simps) (auto simp: poll_def)
  next
    case False
    then have eq: "wait_predec flag timeout hw = wait_predec flag (timeout - 1) (poll hw)"
      by (subst wait_predec.simps) simp
    have "snd (wait_predec flag (timeout - 1) (poll hw)) =
            (poll hw)\<lparr>flagReads := flagReads (snd (wait_predec flag (timeout - 1) (poll hw)))\<rparr>"
      using False "1.IH" by simp
    then show ?thesis by (simp add: eq)
  qed
qed

lemma wait_predec_timeout:
  assumes "t \<noteq> 0" and "\<forall>j<unat t. \<not> flag (INTFLAG hw (flagReads hw + j))"
  shows "wait_predec flag t hw = (True, hw\<lparr>flagReads := flagReads hw + unat t\<rparr>)"
  using assms
proof (induction "unat t" arbitrary: t hw)
  case 0
  then show ?case by (simp add: unat_eq_0)
next
  case (Suc n)
  have n0: "\<not> flag (INTFLAG hw (flagReads hw))"
    using Suc.prems(2) [rule_format, of 0] Suc.hyps(2) by simp
  have un: "unat (t - 1) = n"
    using Suc.hyps(2) Suc.prems(1) by (simp add: unat_minus_one)
  show ?case
  proof (cases "t - 1 = 0")
    case True
    then have "n = 0" using un by simp
    then show ?thesis
      using n0 True Suc.hyps(2) by (subst wait_predec.simps) (simp add: poll_def)
  next
    case False
    have "\<forall>j<unat (t - 1). \<not> flag (INTFLAG (poll hw) (flagReads (poll hw) + j))"
    proof (intro allI impI)
      fix j assume "j < unat (t - 1)"
      then have "Suc j < unat t" using un Suc.hyps(2) by simp
      then show "\<not> flag (INTFLAG (poll hw) (flagReads (poll hw) + j))"
        using Suc.prems(2) [rule_format, of "Suc j"] by simp
    qed
    then have "wait_predec flag (t - 1) (poll hw) =
        (True, (poll hw)\<lparr>flagReads := flagReads (poll hw) + unat (t - 1)\<rparr>)"
      using Suc.hyps(1) [of "t - 1" "poll hw"] un False by simp
    then show ?thesis
      using n0 False un Suc.hyps(2) by (subst wait_predec.simps) simp
  qed
qed

lemma wait_predec_ready:
  assumes "m < unat t" and "flag (INTFLAG hw (flagReads hw + m))"
    and "\<forall>j<m. \<not> flag (INTFLAG hw (flagReads hw + j))"
  shows "wait_predec flag t hw = (False, hw\<lparr>flagReads := flagReads hw + Suc m\<rparr>)"
  using assms
proof (induction m arbitrary: t hw)
  case 0
  then show ?case by (subst wait_predec.simps) (simp add: poll_def)
next
  case (Suc m)
  have n0: "\<not> flag (INTFLAG hw (flagReads hw))"
    using Suc.prems(3) [rule_format, of 0] by simp
  have t0: "t \<noteq> 0" using Suc.prems(1) by auto
  then have un: "unat (t - 1) = unat t - 1" by (simp add: unat_minus_one)
  then have "unat (t - 1) \<noteq> 0" using Suc.prems(1) by simp
  then have nz: "t - 1 \<noteq> 0" by auto
  have "wait_predec flag (t - 1) (poll hw) =
      (False, (poll hw)\<lparr>flagReads := flagReads (poll hw) + Suc m\<rparr>)"
  proof (rule Suc.IH)
    show "m < unat (t - 1)" using Suc.prems(1) un by simp
    show "flag (INTFLAG (poll hw) (flagReads (poll hw) + m))"
      using Suc.prems(2) by simp
    show "\<forall>j<m. \<not> flag (INTFLAG (poll hw) (flagReads (poll hw) + j))"
    proof (intro allI impI)
      fix j assume "j < m"
      then show "\<not> flag (INTFLAG (poll hw) (flagReads (poll hw) + j))"
        using Suc.prems(3) [rule_format, of "Suc j"] by simp
    qed
  qed
  then show ?case
    using n0 nz by (subst wait_predec.simps) simp
qed

lemma wait_predec_fst_iff:
  assumes "t \<noteq> 0"
  shows "fst (wait_predec flag t hw) \<longleftrightarrow> (\<forall>j<unat t. \<not> flag (INTFLAG hw (flagReads hw + j)))"
proof
  assume to: "fst (wait_predec flag t hw)"
  show "\<forall>j<unat t. \<not> flag (INTFLAG hw (flagReads hw + j))"
  proof (rule ccontr)
    assume "\<not> (\<forall>j<unat t. \<not> flag (INTFLAG hw (flagReads hw + j)))"
    then obtain j where j: "j < unat t \<and> flag (INTFLAG hw (flagReads hw + j))" by blast
    define m where "m = (LEAST j. j < unat t \<and> flag (INTFLAG hw (flagReads hw + j)))"
    have m: "m < unat t \<and> flag (INTFLAG hw (flagReads hw + m))"
      unfolding m_def using j by (rule LeastI)
    have least: "\<forall>i<m. \<not> flag (INTFLAG hw (flagReads hw + i))"
    proof (intro allI impI notI)
      fix i assume "i < m" and f: "flag (INTFLAG hw (flagReads hw + i))"
      then have "i < unat t \<and> flag (INTFLAG hw (flagReads hw + i))" using m by simp
      then have "m \<le> i" unfolding m_def by (rule Least_le)
      with \<open>i < m\<close> show False by simp
    qed
    have "wait_predec flag t hw = (False, hw\<lparr>flagReads := flagReads hw + Suc m\<rparr>)"
      using m least by (intro wait_predec_ready) simp_all
    with to show False by simp
  qed
next
  assume "\<forall>j<unat t. \<not> flag (INTFLAG hw (flagReads hw + j))"
  then show "fst (wait_predec flag t hw)"
    using assms by (simp add: wait_predec_timeout)
qed

lemma unat_SpiTimeout [simp]: "unat SpiTimeout = 10000" and SpiTimeout_nonzero [simp]: "SpiTimeout \<noteq> 0"
  by (simp_all add: SpiTimeout_def)

lemma waitForTxEmpty_loop_frame:
  "snd (waitForTxEmpty_loop t hw) = hw\<lparr>flagReads := flagReads (snd (waitForTxEmpty_loop t hw))\<rparr>"
proof (induction t hw rule: waitForTxEmpty_loop.induct)
  case (1 timeout hw)
  show ?case
  proof (cases "TXC (INTFLAG hw (flagReads hw)) \<or> timeout = 0")
    case True
    then show ?thesis
      by (subst (1 2) waitForTxEmpty_loop.simps) (auto simp: poll_def)
  next
    case False
    then have eq: "waitForTxEmpty_loop timeout hw = waitForTxEmpty_loop (timeout - 1) (poll hw)"
      by (subst waitForTxEmpty_loop.simps) simp
    have "snd (waitForTxEmpty_loop (timeout - 1) (poll hw)) =
            (poll hw)\<lparr>flagReads := flagReads (snd (waitForTxEmpty_loop (timeout - 1) (poll hw)))\<rparr>"
      using False "1.IH" by simp
    then show ?thesis by (simp add: eq)
  qed
qed

lemma waitForTxEmpty_loop_timeout:
  assumes "\<forall>j\<le>unat t. \<not> TXC (INTFLAG hw (flagReads hw + j))"
  shows "waitForTxEmpty_loop t hw = (True, hw\<lparr>flagReads := flagReads hw + Suc (unat t)\<rparr>)"
  using assms
proof (induction "unat t" arbitrary: t hw)
  case 0
  then have "t = 0" by (simp add: unat_eq_0)
  moreover have "\<not> TXC (INTFLAG hw (flagReads hw))"
    using "0.prems" [rule_format, of 0] by simp
  ultimately show ?case
    by (subst waitForTxEmpty_loop.simps) (simp add: poll_def)
next
  case (Suc n)
  have n0: "\<not> TXC (INTFLAG hw (flagReads hw))"
    using Suc.prems [rule_format, of 0] by simp
  have t0: "t \<noteq> 0" using Suc.hyps(2) by auto
  then have un: "unat (t - 1) = n"
    using Suc.hyps(2) by (simp add: unat_minus_one)
  have "\<forall>j\<le>unat (t - 1). \<not> TXC (INTFLAG (poll hw) (flagReads (poll hw) + j))"
  proof (intro allI impI)
    fix j assume "j \<le> unat (t - 1)"
    then have "Suc j \<le> unat t" using un Suc.hyps(2) by simp
    then show "\<not> TXC (INTFLAG (poll hw) (flagReads (poll hw) + j))"
      using Suc.prems [rule_format, of "Suc j"] by simp
  qed
  then have "waitForTxEmpty_loop (t - 1) (poll hw) =
      (True, (poll hw)\<lparr>flagReads := flagReads (poll hw) + Suc (unat (t - 1))\<rparr>)"
    using Suc.hyps(1) [of "t - 1" "poll hw"] un by simp
  then show ?case
    using n0 t0 un Suc.hyps(2) by (subst waitForTxEmpty_loop.simps) simp
qed

lemma waitForTxReady_frame:
  "snd (waitForTxReady hw) = hw\<lparr>flagReads := flagReads (snd (waitForTxReady hw))\<rparr>"
  unfolding waitForTxReady_def by (rule wait_predec_frame)

lemma waitForRxReady_frame:
  "snd (waitForRxReady hw) = hw\<lparr>flagReads := flagReads (snd (waitForRxReady hw))\<rparr>"
  unfolding waitForRxReady_def by (rule wait_predec_frame)

lemma waitForTxEmpty_frame:
  "snd (waitForTxEmpty hw) = hw\<lparr>flagReads := flagReads (snd (waitForTxEmpty hw))\<rparr>"
  unfolding waitForTxEmpty_def by (rule waitForTxEmpty_loop_frame)

lemma frame_fields:
  assumes "h' = hw\<lparr>flagReads := n\<rparr>"
  shows "dataReads h' = dataReads hw" "DATA_in h' = DATA_in hw" "DATA_out h' = DATA_out hw"
    "INTFLAG h' = INTFLAG hw"
  using assms by simp_all

lemmas waitForTxReady_fields = frame_fields [OF waitForTxReady_frame]
lemmas waitForRxReady_fields = frame_fields [OF waitForRxReady_frame]
lemmas waitForTxEmpty_fields = frame_fields [OF waitForTxEmpty_frame]

lemma TransceivePacket_loop_done:
  "len \<le> i \<Longrightarrow> TransceivePacket_loop tx (Some buf) len i hw = (True, Some buf, hw)"
  by (subst TransceivePacket_loop.simps) simp

lemma TransceivePacket_loop_tx_timeout:
  assumes "i < len" and "fst (waitForTxReady hw)"
  shows "TransceivePacket_loop tx rx len i hw = (False, rx, snd (waitForTxReady hw))"
  using assms by (subst TransceivePacket_loop.simps) (simp add: Let_def)

lemma TransceivePacket_loop_rx_timeout:
  assumes "i < len" and "\<not> fst (waitForTxReady hw)"
    and "hw2 = (snd (waitForTxReady hw))
                 \<lparr>DATA_out := (case tx of None \<Rightarrow> 0xFF | Some t \<Rightarrow> ucast (t i))
                                # DATA_out (snd (waitForTxReady hw))\<rparr>"
    and "fst (waitForRxReady hw2)"
  shows "TransceivePacket_loop tx (Some buf) len i hw = (False, Some buf, snd (waitForRxReady hw2))"
  using assms by (subst TransceivePacket_loop.simps) (simp add: Let_def)

lemma TransceivePacket_loop_rx_step:
  assumes "i < len" and "\<not> fst (waitForTxReady hw)"
    and "hw2 = (snd (waitForTxReady hw))
                 \<lparr>DATA_out := (case tx of None \<Rightarrow> 0xFF | Some t \<Rightarrow> ucast (t i))
                                # DATA_out (snd (waitForTxReady hw))\<rparr>"
    and "\<not> fst (waitForRxReady hw2)"
  shows "TransceivePacket_loop tx (Some buf) len i hw =
           TransceivePacket_loop tx
             (Some (buf(i := ucast (DATA_in (snd (waitForRxReady hw2))
                                      (dataReads (snd (waitForRxReady hw2)))))))
             len (Suc i)
             ((snd (waitForRxReady hw2))\<lparr>dataReads := Suc (dataReads (snd (waitForRxReady hw2)))\<rparr>)"
  using assms by (subst TransceivePacket_loop.simps) (simp add: Let_def)

lemma TransceivePacket_loop_receive:
  "\<exists>buf'. fst (snd (TransceivePacket_loop tx (Some buf) len i hw)) = Some buf'
      \<and> (\<forall>j. j < i \<or> len \<le> j \<longrightarrow> buf' j = buf j)
      \<and> dataReads (snd (snd (TransceivePacket_loop tx (Some buf) len i hw)))
          \<le> dataReads hw + (len - i)
      \<and> (fst (TransceivePacket_loop tx (Some buf) len i hw) \<longleftrightarrow>
           dataReads (snd (snd (TransceivePacket_loop tx (Some buf) len i hw)))
             = dataReads hw + (len - i))"
proof (induction "len - i" arbitrary: i buf hw)
  case 0
  then show ?case by (simp add: TransceivePacket_loop_done)
next
  case (Suc n)
  then have i: "i < len" by simp
  define hw2 where "hw2 = (snd (waitForTxReady hw))
                 \<lparr>DATA_out := (case tx of None \<Rightarrow> 0xFF | Some t \<Rightarrow> ucast (t i))
                                # DATA_out (snd (waitForTxReady hw))\<rparr>"
  have d2: "dataReads hw2 = dataReads hw"
    by (simp add: hw2_def waitForTxReady_fields)
  have pos: "dataReads hw \<noteq> dataReads hw + (len - i)" "dataReads hw \<le> dataReads hw + (len - i)"
    using i by simp_all
  show ?case
  proof (cases "fst (waitForTxReady hw)")
    case True
    have "TransceivePacket_loop tx (Some buf) len i hw = (False, Some buf, snd (waitForTxReady hw))"
      using i True by (rule TransceivePacket_loop_tx_timeout)
    then show ?thesis
      using pos by (simp add: waitForTxReady_fields del: add_diff_cancel_left' le_add1)
  next
    case tx_ok: False
    show ?thesis
    proof (cases "fst (waitForRxReady hw2)")
      case True
      have "TransceivePacket_loop tx (Some buf) len i hw = (False, Some buf, snd (waitForRxReady hw2))"
        using i tx_ok hw2_def True by (rule TransceivePacket_loop_rx_timeout)
      then show ?thesis
        using pos d2 by (simp add: waitForRxReady_fields)
    next
      case rx_ok: False
      define dIn :: "8 word" where
        "dIn = ucast (DATA_in (snd (waitForRxReady hw2)) (dataReads (snd (waitForRxReady hw2))))"
      define hw4 where
        "hw4 = (snd (waitForRxReady hw2))\<lparr>dataReads := Suc (dataReads (snd (waitForRxReady hw2)))\<rparr>"
      have step: "TransceivePacket_loop tx (Some buf) len i hw =
                    TransceivePacket_loop tx (Some (buf(i := dIn))) len (Suc i) hw4"
        unfolding dIn_def hw4_def
        by (rule TransceivePacket_loop_rx_step [OF i tx_ok hw2_def rx_ok])
      have d4: "dataReads hw4 = Suc (dataReads hw)"
        by (simp add: hw4_def waitForRxReady_fields d2)
      have n: "n = len - Suc i" using Suc.hyps(2) by simp
      from Suc.hyps(1) [OF n, of "buf(i := dIn)" hw4]
      obtain buf' where
        b: "fst (snd (TransceivePacket_loop tx (Some (buf(i := dIn))) len (Suc i) hw4)) = Some buf'"
        and fr: "\<forall>j. j < Suc i \<or> len \<le> j \<longrightarrow> buf' j = (buf(i := dIn)) j"
        and le: "dataReads (snd (snd (TransceivePacket_loop tx (Some (buf(i := dIn))) len (Suc i) hw4)))
                   \<le> dataReads hw4 + (len - Suc i)"
        and ok: "fst (TransceivePacket_loop tx (Some (buf(i := dIn))) len (Suc i) hw4) \<longleftrightarrow>
                 dataReads (snd (snd (TransceivePacket_loop tx (Some (buf(i := dIn))) len (Suc i) hw4)))
                   = dataReads hw4 + (len - Suc i)"
        by blast
      have fr': "\<forall>j. j < i \<or> len \<le> j \<longrightarrow> buf' j = buf j"
        using fr i by auto
      have ar: "dataReads hw4 + (len - Suc i) = dataReads hw + (len - i)"
        using d4 i by simp
      show ?thesis
        unfolding step using b fr' le ok ar by auto
    qed
  qed
qed

lemma waitForTxReady_timeout:
  assumes "\<forall>j<10000. \<not> DRE (INTFLAG hw (flagReads hw + j))"
  shows "waitForTxReady hw = (True, hw\<lparr>flagReads := flagReads hw + 10000\<rparr>)"
  using wait_predec_timeout [of SpiTimeout DRE hw] assms by (simp add: waitForTxReady_def)

lemma waitForRxReady_timeout:
  assumes "\<forall>j<10000. \<not> RXC (INTFLAG hw (flagReads hw + j))"
  shows "waitForRxReady hw = (True, hw\<lparr>flagReads := flagReads hw + 10000\<rparr>)"
  using wait_predec_timeout [of SpiTimeout RXC hw] assms by (simp add: waitForRxReady_def)

lemma waitForTxReady_ready:
  assumes "m < 10000" and "DRE (INTFLAG hw (flagReads hw + m))"
    and "\<forall>j<m. \<not> DRE (INTFLAG hw (flagReads hw + j))"
  shows "waitForTxReady hw = (False, hw\<lparr>flagReads := flagReads hw + Suc m\<rparr>)"
  using wait_predec_ready [of m SpiTimeout DRE hw] assms by (simp add: waitForTxReady_def)

lemma waitForTxEmpty_timeout:
  assumes "\<forall>j\<le>10000. \<not> TXC (INTFLAG hw (flagReads hw + j))"
  shows "waitForTxEmpty hw = (True, hw\<lparr>flagReads := flagReads hw + 10001\<rparr>)"
  using waitForTxEmpty_loop_timeout [of SpiTimeout hw] assms by (simp add: waitForTxEmpty_def)

text \<open>
  C6. A transfer with a receive buffer, at any byte position \<open>i\<close> below \<open>len\<close> and
  on any flag trace: if the transmitter-ready flag is clear at the next 10000 flag reads,
  the call returns \<open>false\<close> after those reads with the buffer and the data register
  untouched; if the transmitter becomes ready but the receive-complete flag is then clear
  at 10000 flag reads, the call returns \<open>false\<close> after them, having written the byte
  of position \<open>i\<close> only and stored nothing. For the whole call: the buffer is unchanged
  at every offset from \<open>len\<close> on, at most \<open>len\<close> bytes are read from the data
  register, and the call returns \<open>true\<close> exactly when all \<open>len\<close> were read.
\<close>

theorem TransceivePacket_receive_timeout:
  "(i < len \<and> (\<forall>j<10000. \<not> DRE (INTFLAG hw (flagReads hw + j))) \<longrightarrow>
      TransceivePacket_loop tx (Some buf) len i hw
        = (False, Some buf, hw\<lparr>flagReads := flagReads hw + 10000\<rparr>))
   \<and> (i < len \<and> m < 10000 \<and> DRE (INTFLAG hw (flagReads hw + m))
        \<and> (\<forall>j<m. \<not> DRE (INTFLAG hw (flagReads hw + j)))
        \<and> (\<forall>j<10000. \<not> RXC (INTFLAG hw (flagReads hw + Suc m + j))) \<longrightarrow>
      TransceivePacket_loop tx (Some buf) len i hw
        = (False, Some buf,
           hw\<lparr>flagReads := flagReads hw + Suc m + 10000,
              DATA_out := (case tx of None \<Rightarrow> 0xFF | Some t \<Rightarrow> ucast (t i)) # DATA_out hw\<rparr>))
   \<and> (\<exists>buf'. fst (snd (TransceivePacket tx (Some buf) len hw)) = Some buf'
        \<and> (\<forall>j\<ge>len. buf' j = buf j)
        \<and> dataReads (snd (snd (TransceivePacket tx (Some buf) len hw))) \<le> dataReads hw + len
        \<and> (fst (TransceivePacket tx (Some buf) len hw) \<longleftrightarrow>
             dataReads (snd (snd (TransceivePacket tx (Some buf) len hw))) = dataReads hw + len))"
proof (intro conjI impI)
  assume a: "i < len \<and> (\<forall>j<10000. \<not> DRE (INTFLAG hw (flagReads hw + j)))"
  then have w: "waitForTxReady hw = (True, hw\<lparr>flagReads := flagReads hw + 10000\<rparr>)"
    by (simp add: waitForTxReady_timeout)
  show "TransceivePacket_loop tx (Some buf) len i hw
        = (False, Some buf, hw\<lparr>flagReads := flagReads hw + 10000\<rparr>)"
    using a by (simp add: TransceivePacket_loop_tx_timeout w)
next
  assume a: "i < len \<and> m < 10000 \<and> DRE (INTFLAG hw (flagReads hw + m))
        \<and> (\<forall>j<m. \<not> DRE (INTFLAG hw (flagReads hw + j)))
        \<and> (\<forall>j<10000. \<not> RXC (INTFLAG hw (flagReads hw + Suc m + j)))"
  then have i: "i < len" by simp
  have w1: "waitForTxReady hw = (False, hw\<lparr>flagReads := flagReads hw + Suc m\<rparr>)"
    using a by (intro waitForTxReady_ready) simp_all
  define hw2 where "hw2 = (snd (waitForTxReady hw))
                 \<lparr>DATA_out := (case tx of None \<Rightarrow> 0xFF | Some t \<Rightarrow> ucast (t i))
                                # DATA_out (snd (waitForTxReady hw))\<rparr>"
  have h2: "hw2 = hw\<lparr>flagReads := flagReads hw + Suc m,
                     DATA_out := (case tx of None \<Rightarrow> 0xFF | Some t \<Rightarrow> ucast (t i)) # DATA_out hw\<rparr>"
    by (simp add: hw2_def w1)
  have "\<forall>j<10000. \<not> RXC (INTFLAG hw2 (flagReads hw2 + j))"
    using a by (simp add: h2)
  then have w2: "waitForRxReady hw2 = (True, hw2\<lparr>flagReads := flagReads hw2 + 10000\<rparr>)"
    by (rule waitForRxReady_timeout)
  have "TransceivePacket_loop tx (Some buf) len i hw = (False, Some buf, snd (waitForRxReady hw2))"
    using i _ hw2_def by (rule TransceivePacket_loop_rx_timeout) (simp_all add: w1 w2)
  then have "TransceivePacket_loop tx (Some buf) len i hw
               = (False, Some buf, hw2\<lparr>flagReads := flagReads hw2 + 10000\<rparr>)"
    by (simp only: w2 snd_conv)
  then show "TransceivePacket_loop tx (Some buf) len i hw
        = (False, Some buf,
           hw\<lparr>flagReads := flagReads hw + Suc m + 10000,
              DATA_out := (case tx of None \<Rightarrow> 0xFF | Some t \<Rightarrow> ucast (t i)) # DATA_out hw\<rparr>)"
    by (simp add: h2)
next
  show "\<exists>buf'. fst (snd (TransceivePacket tx (Some buf) len hw)) = Some buf'
        \<and> (\<forall>j\<ge>len. buf' j = buf j)
        \<and> dataReads (snd (snd (TransceivePacket tx (Some buf) len hw))) \<le> dataReads hw + len
        \<and> (fst (TransceivePacket tx (Some buf) len hw) \<longleftrightarrow>
             dataReads (snd (snd (TransceivePacket tx (Some buf) len hw))) = dataReads hw + len)"
    using TransceivePacket_loop_receive [of tx buf len 0 hw]
    by (simp add: TransceivePacket_def)
qed

theorem TransceivePacket_receive_timeout_witness:
  "TransceivePacket_loop None (Some (\<lambda>j. 0)) 3 0 never_ready_bus
     = (False, Some (\<lambda>j. 0), never_ready_bus\<lparr>flagReads := 10000\<rparr>)
   \<and> TransceivePacket_loop None (Some (\<lambda>j. 0)) 3 0 transmit_only_bus
     = (False, Some (\<lambda>j. 0), transmit_only_bus\<lparr>flagReads := 10001, DATA_out := [0xFF]\<rparr>)
   \<and> fst (TransceivePacket None (Some (\<lambda>j. 0)) 3 never_ready_bus) = False
   \<and> dataReads (snd (snd (TransceivePacket None (Some (\<lambda>j. 0)) 3 never_ready_bus))) = 0"
proof -
  have a: "(0::nat) < 3 \<and> (\<forall>j<10000. \<not> DRE (INTFLAG never_ready_bus (flagReads never_ready_bus + j)))"
    by (simp add: never_ready_bus_def)
  have b: "(0::nat) < 3 \<and> (0::nat) < 10000
        \<and> DRE (INTFLAG transmit_only_bus (flagReads transmit_only_bus + 0))
        \<and> (\<forall>j<0. \<not> DRE (INTFLAG transmit_only_bus (flagReads transmit_only_bus + j)))
        \<and> (\<forall>j<10000. \<not> RXC (INTFLAG transmit_only_bus (flagReads transmit_only_bus + Suc 0 + j)))"
    by (simp add: transmit_only_bus_def)
  have fr0: "flagReads never_ready_bus = 0" "flagReads transmit_only_bus = 0"
    "DATA_out transmit_only_bus = []"
    by (simp_all add: never_ready_bus_def transmit_only_bus_def)
  note t1 = TransceivePacket_receive_timeout [of 0 3 never_ready_bus None "\<lambda>j. 0" 0]
  note t2 = TransceivePacket_receive_timeout [of 0 3 transmit_only_bus None "\<lambda>j. 0" 0]
  have r1: "TransceivePacket_loop None (Some (\<lambda>j. 0)) 3 0 never_ready_bus
     = (False, Some (\<lambda>j. 0), never_ready_bus\<lparr>flagReads := 10000\<rparr>)"
    using t1 [THEN conjunct1] a fr0 by simp
  have r2: "TransceivePacket_loop None (Some (\<lambda>j. 0)) 3 0 transmit_only_bus
     = (False, Some (\<lambda>j. 0), transmit_only_bus\<lparr>flagReads := 10001, DATA_out := [0xFF]\<rparr>)"
    using t2 [THEN conjunct2, THEN conjunct1] b fr0 by simp
  have "dataReads (never_ready_bus\<lparr>flagReads := 10000\<rparr>) = 0"
    by (simp add: never_ready_bus_def)
  then show ?thesis
    using r1 r2 by (simp add: TransceivePacket_def)
qed

lemma TransceivePacket_loop_write_done:
  "len \<le> i \<Longrightarrow> TransceivePacket_loop tx None len i hw =
     (True, None, (snd (waitForTxEmpty hw))\<lparr>dataReads := Suc (dataReads (snd (waitForTxEmpty hw)))\<rparr>)"
  by (subst TransceivePacket_loop.simps) (simp add: Let_def)

lemma TransceivePacket_loop_write_step:
  assumes "i < len" and "\<not> fst (waitForTxReady hw)"
  shows "TransceivePacket_loop tx None len i hw =
           TransceivePacket_loop tx None len (Suc i)
             ((snd (waitForTxReady hw))
                \<lparr>DATA_out := (case tx of None \<Rightarrow> 0xFF | Some t \<Rightarrow> ucast (t i))
                               # DATA_out (snd (waitForTxReady hw))\<rparr>)"
  using assms by (subst TransceivePacket_loop.simps) (simp add: Let_def)

lemma TransceivePacket_loop_write:
  "fst (snd (TransceivePacket_loop tx None len i hw)) = None
   \<and> (fst (TransceivePacket_loop tx None len i hw) \<longleftrightarrow>
        length (DATA_out (snd (snd (TransceivePacket_loop tx None len i hw))))
          = length (DATA_out hw) + (len - i))"
proof (induction "len - i" arbitrary: i hw)
  case 0
  then show ?case
    by (simp add: TransceivePacket_loop_write_done waitForTxEmpty_fields)
next
  case (Suc n)
  then have i: "i < len" by simp
  then have pos: "length (DATA_out hw) \<noteq> length (DATA_out hw) + (len - i)" by simp
  show ?case
  proof (cases "fst (waitForTxReady hw)")
    case True
    have "TransceivePacket_loop tx None len i hw = (False, None, snd (waitForTxReady hw))"
      using i True by (rule TransceivePacket_loop_tx_timeout)
    then show ?thesis
      using pos by (simp add: waitForTxReady_fields)
  next
    case False
    define hw2 where "hw2 = (snd (waitForTxReady hw))
                \<lparr>DATA_out := (case tx of None \<Rightarrow> 0xFF | Some t \<Rightarrow> ucast (t i))
                               # DATA_out (snd (waitForTxReady hw))\<rparr>"
    have step: "TransceivePacket_loop tx None len i hw = TransceivePacket_loop tx None len (Suc i) hw2"
      unfolding hw2_def using i False by (rule TransceivePacket_loop_write_step)
    have l2: "length (DATA_out hw2) = Suc (length (DATA_out hw))"
      by (simp add: hw2_def waitForTxReady_fields)
    have n: "n = len - Suc i" using Suc.hyps(2) by simp
    have ar: "length (DATA_out hw2) + (len - Suc i) = length (DATA_out hw) + (len - i)"
      using l2 i by simp
    show ?thesis
      unfolding step using Suc.hyps(1) [OF n, of hw2] ar by simp
  qed
qed

lemma TransceivePacket_loop_write_ready:
  assumes "\<forall>n. \<exists>j<10000. DRE (INTFLAG hw (n + j))"
  shows "fst (TransceivePacket_loop tx None len i hw)"
  using assms
proof (induction "len - i" arbitrary: i hw)
  case 0
  then show ?case by (simp add: TransceivePacket_loop_write_done)
next
  case (Suc n)
  then have i: "i < len" by simp
  have "\<not> (\<forall>j<10000. \<not> DRE (INTFLAG hw (flagReads hw + j)))"
    using Suc.prems [rule_format, of "flagReads hw"] by blast
  then have ok: "\<not> fst (waitForTxReady hw)"
    using wait_predec_fst_iff [of SpiTimeout DRE hw] by (simp add: waitForTxReady_def)
  define hw2 where "hw2 = (snd (waitForTxReady hw))
                \<lparr>DATA_out := (case tx of None \<Rightarrow> 0xFF | Some t \<Rightarrow> ucast (t i))
                               # DATA_out (snd (waitForTxReady hw))\<rparr>"
  have step: "TransceivePacket_loop tx None len i hw = TransceivePacket_loop tx None len (Suc i) hw2"
    unfolding hw2_def using i ok by (rule TransceivePacket_loop_write_step)
  have "INTFLAG hw2 = INTFLAG hw"
    by (simp add: hw2_def waitForTxReady_fields)
  then have "\<forall>n. \<exists>j<10000. DRE (INTFLAG hw2 (n + j))"
    using Suc.prems by simp
  moreover have "n = len - Suc i" using Suc.hyps(2) by simp
  ultimately show ?case
    unfolding step using Suc.hyps(1) [of "Suc i" hw2] by simp
qed

lemma TransceivePacket_loop_write_exact:
  assumes "\<forall>j. DRE (INTFLAG hw j) \<and> \<not> TXC (INTFLAG hw j)"
  shows "TransceivePacket_loop tx None len i hw =
           (True, None,
            hw\<lparr>flagReads := flagReads hw + (len - i) + 10001,
               dataReads := Suc (dataReads hw),
               DATA_out := rev (map (\<lambda>i. case tx of None \<Rightarrow> 0xFF | Some t \<Rightarrow> ucast (t i)) [i..<len])
                             @ DATA_out hw\<rparr>)"
  using assms
proof (induction "len - i" arbitrary: i hw)
  case 0
  have "waitForTxEmpty hw = (True, hw\<lparr>flagReads := flagReads hw + 10001\<rparr>)"
    using "0.prems" by (intro waitForTxEmpty_timeout) simp
  then show ?case
    using "0.hyps" by (simp add: TransceivePacket_loop_write_done)
next
  case (Suc n)
  then have i: "i < len" by simp
  have w1: "waitForTxReady hw = (False, hw\<lparr>flagReads := flagReads hw + Suc 0\<rparr>)"
    using Suc.prems by (intro waitForTxReady_ready) simp_all
  define hw2 where "hw2 = (snd (waitForTxReady hw))
                \<lparr>DATA_out := (case tx of None \<Rightarrow> 0xFF | Some t \<Rightarrow> ucast (t i))
                               # DATA_out (snd (waitForTxReady hw))\<rparr>"
  have step: "TransceivePacket_loop tx None len i hw = TransceivePacket_loop tx None len (Suc i) hw2"
    unfolding hw2_def using i by (rule TransceivePacket_loop_write_step) (simp add: w1)
  have h2: "hw2 = hw\<lparr>flagReads := Suc (flagReads hw),
                     DATA_out := (case tx of None \<Rightarrow> 0xFF | Some t \<Rightarrow> ucast (t i)) # DATA_out hw\<rparr>"
    by (simp add: hw2_def w1)
  have tr: "\<forall>j. DRE (INTFLAG hw2 j) \<and> \<not> TXC (INTFLAG hw2 j)"
    using Suc.prems by (simp add: h2)
  have n: "n = len - Suc i" using Suc.hyps(2) by simp
  have ih: "TransceivePacket_loop tx None len (Suc i) hw2 =
           (True, None,
            hw2\<lparr>flagReads := flagReads hw2 + (len - Suc i) + 10001,
               dataReads := Suc (dataReads hw2),
               DATA_out := rev (map (\<lambda>i. case tx of None \<Rightarrow> 0xFF | Some t \<Rightarrow> ucast (t i)) [Suc i..<len])
                             @ DATA_out hw2\<rparr>)"
    using Suc.hyps(1) [OF n tr] .
  have ar: "Suc (flagReads hw) + (len - Suc i) = flagReads hw + (len - i)"
    using i by simp
  show ?case
    unfolding step ih using i ar by (simp add: h2 upt_conv_Cons)
qed

text \<open>
  C9. A transfer without a receive buffer returns \<open>true\<close> exactly when all \<open>len\<close>
  bytes were written to the data register, that is when no transmitter-ready wait timed
  out; what the wait for transmit-complete returns has no part in it. So it returns
  \<open>true\<close> on every trace that never has the transmitter-ready flag clear at 10000
  consecutive reads. On a trace where the transmitter is always ready and
  transmit-complete is never set, the wait for transmit-complete made after the loop times
  out, after 10001 flag reads, and the call still returns \<open>true\<close>.
\<close>

theorem TransceivePacket_write_ignores_TxEmpty:
  "(fst (TransceivePacket tx None len hw) \<longleftrightarrow>
      length (DATA_out (snd (snd (TransceivePacket tx None len hw)))) = length (DATA_out hw) + len)
   \<and> ((\<forall>n. \<exists>j<10000. DRE (INTFLAG hw (n + j))) \<longrightarrow> fst (TransceivePacket tx None len hw))
   \<and> ((\<forall>j. DRE (INTFLAG hw j) \<and> \<not> TXC (INTFLAG hw j)) \<longrightarrow>
        fst (waitForTxEmpty
              (hw\<lparr>flagReads := flagReads hw + len,
                  DATA_out := rev (map (\<lambda>i. case tx of None \<Rightarrow> 0xFF | Some t \<Rightarrow> ucast (t i)) [0..<len])
                               @ DATA_out hw\<rparr>))
        \<and> TransceivePacket tx None len hw =
            (True, None,
             hw\<lparr>flagReads := flagReads hw + len + 10001,
                dataReads := Suc (dataReads hw),
                DATA_out := rev (map (\<lambda>i. case tx of None \<Rightarrow> 0xFF | Some t \<Rightarrow> ucast (t i)) [0..<len])
                              @ DATA_out hw\<rparr>))"
proof (intro conjI impI)
  show "fst (TransceivePacket tx None len hw) \<longleftrightarrow>
      length (DATA_out (snd (snd (TransceivePacket tx None len hw)))) = length (DATA_out hw) + len"
    using TransceivePacket_loop_write [of tx len 0 hw] by (simp add: TransceivePacket_def)
next
  assume "\<forall>n. \<exists>j<10000. DRE (INTFLAG hw (n + j))"
  then show "fst (TransceivePacket tx None len hw)"
    unfolding TransceivePacket_def by (rule TransceivePacket_loop_write_ready)
next
  assume a: "\<forall>j. DRE (INTFLAG hw j) \<and> \<not> TXC (INTFLAG hw j)"
  define hL where "hL = hw\<lparr>flagReads := flagReads hw + len,
                  DATA_out := rev (map (\<lambda>i. case tx of None \<Rightarrow> 0xFF | Some t \<Rightarrow> ucast (t i)) [0..<len])
                               @ DATA_out hw\<rparr>"
  have "\<forall>j\<le>10000. \<not> TXC (INTFLAG hL (flagReads hL + j))"
    using a by (simp add: hL_def)
  then have "waitForTxEmpty hL = (True, hL\<lparr>flagReads := flagReads hL + 10001\<rparr>)"
    by (rule waitForTxEmpty_timeout)
  then show "fst (waitForTxEmpty
              (hw\<lparr>flagReads := flagReads hw + len,
                  DATA_out := rev (map (\<lambda>i. case tx of None \<Rightarrow> 0xFF | Some t \<Rightarrow> ucast (t i)) [0..<len])
                               @ DATA_out hw\<rparr>))"
    by (simp add: hL_def)
  show "TransceivePacket tx None len hw =
            (True, None,
             hw\<lparr>flagReads := flagReads hw + len + 10001,
                dataReads := Suc (dataReads hw),
                DATA_out := rev (map (\<lambda>i. case tx of None \<Rightarrow> 0xFF | Some t \<Rightarrow> ucast (t i)) [0..<len])
                              @ DATA_out hw\<rparr>)"
    using TransceivePacket_loop_write_exact [OF a, of tx len 0] by (simp add: TransceivePacket_def)
qed

theorem TransceivePacket_write_ignores_TxEmpty_witness:
  "TransceivePacket None None 2 transmit_only_bus =
     (True, None, transmit_only_bus\<lparr>flagReads := 10003, dataReads := 1, DATA_out := [0xFF, 0xFF]\<rparr>)
   \<and> fst (waitForTxEmpty (transmit_only_bus\<lparr>flagReads := 2, DATA_out := [0xFF, 0xFF]\<rparr>))
   \<and> fst (TransceivePacket None None 2 transmit_only_bus)"
proof -
  have a: "\<forall>j. DRE (INTFLAG transmit_only_bus j) \<and> \<not> TXC (INTFLAG transmit_only_bus j)"
    by (simp add: transmit_only_bus_def)
  then have b: "\<forall>n. \<exists>j<10000. DRE (INTFLAG transmit_only_bus (n + j))"
    by (intro allI exI [of _ 0]) simp
  have f: "flagReads transmit_only_bus = 0" "dataReads transmit_only_bus = 0"
    "DATA_out transmit_only_bus = []"
    by (simp_all add: transmit_only_bus_def)
  have u: "[0..<2] = [0, Suc 0]" by (simp add: upt_conv_Cons)
  note t = TransceivePacket_write_ignores_TxEmpty [of None 2 transmit_only_bus]
  show ?thesis
    using t [THEN conjunct2, THEN conjunct1] t [THEN conjunct2, THEN conjunct2] a b
    by (simp add: f u numeral_2_eq_2)
qed

section \<open>Properties of basic tuning\<close>

lemma BasicTuning_run_add:
  "BasicTuning_run r enc (m + n) bs = BasicTuning_run r enc n (BasicTuning_run r enc m bs)"
  by (induction m arbitrary: bs) simp_all

lemma BasicTuning_run_Suc_end:
  "BasicTuning_run r enc (Suc n) bs =
     BasicTuning r enc (fst (BasicTuning_run r enc n bs)) (snd (BasicTuning_run r enc n bs))"
  using BasicTuning_run_add [of r enc n 1 bs] by simp

lemma NumSamples_eq [simp]: "NumSamples = 512"
  by (simp add: NumSamples_def PhaseIncrement_def)

text \<open>What \<open>collect\<close> does to a sweep that has taken \<open>k\<close> samples.\<close>

lemma collect_sweeping:
  assumes "sweeping r enc st n0 k s"
  shows "bt_state (collect r enc s) = st" and "stepCounter (collect r enc s) = k"
    and "readings (collect r enc s) = n0 + Suc k"
    and "readingAccumulator (collect r enc s) = sumReading r (sample r enc n0) (Suc k)"
    and "regressionAccumulator (collect r enc s) = sumWeighted r (sample r enc n0) (Suc k)"
    and "initialEncoderReading (collect r enc s) = GetReading enc n0"
  using assms
  by (cases "k = 0"; simp add: sweeping_def collect_def Let_def sample_def)+

lemma collect_frame:
  "initialStepPhase (collect r enc s) = initialStepPhase s"
  "desiredStepPhase (collect r enc s) = desiredStepPhase s"
  "events (collect r enc s) = events s"
  "stepCounter (collect r enc s) = stepCounter s"
  "bt_state (collect r enc s) = bt_state s"
  by (simp_all add: collect_def Let_def)

lemma BasicTuning_sweep_continue:
  assumes "bt_state s = forwards \<or> bt_state s = reverse" and "stepCounter s \<noteq> NumSamples"
  shows "BasicTuning r enc False s =
     (False, (collect r enc s)
        \<lparr>desiredStepPhase := (if bt_state s = forwards then desiredStepPhase s + PhaseIncrement
                               else desiredStepPhase s - PhaseIncrement),
         events := SetMotorPhase (if bt_state s = forwards then desiredStepPhase s + PhaseIncrement
                                  else desiredStepPhase s - PhaseIncrement) 1 # events s,
         stepCounter := Suc (stepCounter s)\<rparr>)"
  using assms by (auto simp: BasicTuning_def Let_def collect_frame)

text \<open>A call in a sweep state with fewer than \<open>NumSamples\<close> samples taken.\<close>

lemma sweep_step:
  assumes "sweeping r enc st n0 k s" and "st = forwards \<or> st = reverse" and "k < NumSamples"
  shows "fst (BasicTuning r enc False s) = False"
    and "sweeping r enc st n0 (Suc k) (snd (BasicTuning r enc False s))"
    and "initialStepPhase (snd (BasicTuning r enc False s)) = initialStepPhase s"
proof -
  have st: "bt_state s = forwards \<or> bt_state s = reverse" and sc: "stepCounter s \<noteq> NumSamples"
    using assms by (auto simp: sweeping_def)
  note eq = BasicTuning_sweep_continue [OF st sc]
  show "fst (BasicTuning r enc False s) = False" by (simp add: eq)
  show "sweeping r enc st n0 (Suc k) (snd (BasicTuning r enc False s))"
    unfolding eq using collect_sweeping [OF assms(1)] assms(1)
    by (simp add: sweeping_def)
  show "initialStepPhase (snd (BasicTuning r enc False s)) = initialStepPhase s"
    by (simp add: eq collect_frame)
qed

lemma sweep_run:
  assumes "sweeping r enc st n0 0 s" and "st = forwards \<or> st = reverse" and "k \<le> NumSamples"
  shows "fst (BasicTuning_run r enc k (False, s)) = False
       \<and> sweeping r enc st n0 k (snd (BasicTuning_run r enc k (False, s)))
       \<and> initialStepPhase (snd (BasicTuning_run r enc k (False, s))) = initialStepPhase s"
  using assms(3)
proof (induction k)
  case 0
  then show ?case using assms(1) by simp
next
  case (Suc k)
  then have ih: "fst (BasicTuning_run r enc k (False, s)) = False"
      "sweeping r enc st n0 k (snd (BasicTuning_run r enc k (False, s)))"
      "initialStepPhase (snd (BasicTuning_run r enc k (False, s))) = initialStepPhase s"
    by simp_all
  have k: "k < NumSamples" using Suc.prems by simp
  show ?case
    unfolding BasicTuning_run_Suc_end ih(1)
    using sweep_step [OF ih(2) assms(2) k] ih(3) by simp
qed

lemma settle_forward:
  "fst (BasicTuning_run r enc 8 (True, s0)) = False"
  "sweeping r enc forwards (readings s0) 0 (snd (BasicTuning_run r enc 8 (True, s0)))"
  "initialStepPhase (snd (BasicTuning_run r enc 8 (True, s0))) = desiredStepPhase s0 + 8 * PhaseIncrement"
  by (simp_all add: eval_nat_numeral BasicTuning_def Let_def sweeping_def NumDummySteps_def
        PhaseIncrement_def)

lemma BasicTuning_forward_finish:
  assumes "bt_state s = forwards" and "stepCounter s = NumSamples"
  shows "BasicTuning r enc False s =
     (False, (collect r enc s)
        \<lparr>events :=
           SaveBasicTuningResult
             (fdiv r (regressionAccumulator (collect r enc s)) (Denominator r))
             (fsub r
                (fadd r (fdiv r (readingAccumulator (collect r enc s)) (float_of_uint r NumSamples))
                        (float_of_int32 r (initialEncoderReading (collect r enc s))))
                (fmul r (fdiv r (regressionAccumulator (collect r enc s)) (Denominator r))
                        (fadd r (float_of_uint16 r (initialStepPhase s))
                                (fmul r (float_of_uint16 r PhaseIncrement) (HalfNumSamplesMinusOne r)))))
             (fadd r (float_of_uint16 r (initialStepPhase s))
                     (fmul r (float_of_uint16 r PhaseIncrement) (HalfNumSamplesMinusOne r)))
             False # events s,
         stepCounter := 0, bt_state := reverseInitial\<rparr>)"
  using assms by (simp add: BasicTuning_def Let_def collect_frame del: NumSamples_eq)

text \<open>
  Started afresh, basic tuning saves the forward result at call number
  \<open>NumDummySteps + NumSamples + 1\<close>, having taken \<open>NumSamples + 1\<close> readings: the
  samples with indices 0 to \<open>NumSamples\<close>.
\<close>

lemma forward_sweep:
  "fst (BasicTuning_run r enc (8 + 512 + 1) (True, s0)) = False"
  "bt_state (snd (BasicTuning_run r enc (8 + 512 + 1) (True, s0))) = reverseInitial"
  "readings (snd (BasicTuning_run r enc (8 + 512 + 1) (True, s0))) = readings s0 + 513"
  "hd (events (snd (BasicTuning_run r enc (8 + 512 + 1) (True, s0)))) = forward_result r enc s0 513"
proof -
  define s8 where "s8 = snd (BasicTuning_run r enc 8 (True, s0))"
  have r8: "BasicTuning_run r enc 8 (True, s0) = (False, s8)"
    using settle_forward(1) [of r enc s0] by (simp add: s8_def prod_eq_iff)
  have sw8: "sweeping r enc forwards (readings s0) 0 s8"
    and isp8: "initialStepPhase s8 = desiredStepPhase s0 + 8 * PhaseIncrement"
    by (simp_all add: s8_def settle_forward)
  define s520 where "s520 = snd (BasicTuning_run r enc 512 (False, s8))"
  have run: "fst (BasicTuning_run r enc 512 (False, s8)) = False
       \<and> sweeping r enc forwards (readings s0) 512 s520
       \<and> initialStepPhase s520 = initialStepPhase s8"
    unfolding s520_def by (rule sweep_run [OF sw8]) simp_all
  then have r520: "BasicTuning_run r enc 512 (False, s8) = (False, s520)"
    by (simp add: s520_def prod_eq_iff)
  have sw: "sweeping r enc forwards (readings s0) 512 s520" using run by simp
  have st: "bt_state s520 = forwards" "stepCounter s520 = NumSamples"
    using sw by (simp_all add: sweeping_def)
  have all: "BasicTuning_run r enc (8 + 512 + 1) (True, s0) = BasicTuning r enc False s520"
    by (simp only: BasicTuning_run_add r8 r520) simp
  note fin = BasicTuning_forward_finish [OF st, of r enc]
  note cs = collect_sweeping [OF sw]
  show "fst (BasicTuning_run r enc (8 + 512 + 1) (True, s0)) = False"
    by (simp only: all fin fst_conv)
  show "bt_state (snd (BasicTuning_run r enc (8 + 512 + 1) (True, s0))) = reverseInitial"
    by (simp only: all fin snd_conv) simp
  show "readings (snd (BasicTuning_run r enc (8 + 512 + 1) (True, s0))) = readings s0 + 513"
    by (simp only: all fin snd_conv) (simp add: cs)
  show "hd (events (snd (BasicTuning_run r enc (8 + 512 + 1) (True, s0)))) = forward_result r enc s0 513"
    using run isp8 by (simp only: all fin snd_conv) (simp add: cs forward_result_def Let_def)
qed

lemma exact_ops [simp]:
  "fadd exact a b = a + b" "fsub exact a b = a - b" "fmul exact a b = a * b"
  "fdiv exact a b = a / b" "float_of_int32 exact w = of_int (sint w)"
  "float_of_uint16 exact v = of_nat (unat v)" "float_of_uint exact n = of_nat n"
  by (simp_all add: fadd_def fsub_def fmul_def fdiv_def float_of_int32_def float_of_uint16_def
        float_of_uint_def exact_def)

lemma exact_constants:
  "HalfNumSamplesMinusOne exact = 511 / 2" "Denominator exact = 89478144"
  by (simp_all add: HalfNumSamplesMinusOne_def Denominator_def fcube_def PhaseIncrement_def)

lemma sums_cong:
  assumes "\<forall>i<k. d i = d' i"
  shows "sumReading r d k = sumReading r d' k" and "sumWeighted r d k = sumWeighted r d' k"
  using assms by (induction k) simp_all

lemma sint_8_times:
  assumes "i < 1000"
  shows "sint (8 * of_nat i :: 32 word) = 8 * int i"
proof -
  have "(8 * of_nat i :: 32 word) = word_of_int (8 * int i)" by simp
  then have "sint (8 * of_nat i :: 32 word) = signed_take_bit 31 (8 * int i)"
    by (simp only: sint_sbintrunc') simp
  also have "\<dots> = 8 * int i"
    by (rule signed_take_bit_int_eq_self) (use assms in simp_all)
  finally show ?thesis .
qed

lemma sample_linear:
  assumes "i < 1000"
  shows "sample exact linear_encoder 0 i = 8 * real i"
  using sint_8_times [OF assms] by (simp add: sample_def linear_encoder_def)

lemma sumReading_linear:
  "sumReading exact (\<lambda>i. 8 * real i) k = 4 * real k * (real k - 1)"
  by (induction k) (simp_all add: algebra_simps)

lemma sumWeighted_linear:
  "sumWeighted exact (\<lambda>i. 8 * real i) k =
     8 * ((real k - 1) * real k * (2 * real k - 1) / 6 - 511 / 4 * ((real k - 1) * real k))"
  by (induction k) (simp_all add: exact_constants field_simps)

lemma sums_linear_513:
  "sumReading exact (sample exact linear_encoder 0) 513 = 1050624"
  "sumWeighted exact (sample exact linear_encoder 0) 513 = 90528768"
proof -
  have c: "\<forall>i<513. sample exact linear_encoder 0 i = (\<lambda>i. 8 * real i) i"
    by (simp add: sample_linear)
  show "sumReading exact (sample exact linear_encoder 0) 513 = 1050624"
    by (simp add: sums_cong(1) [OF c] sumReading_linear)
  show "sumWeighted exact (sample exact linear_encoder 0) 513 = 90528768"
    by (simp add: sums_cong(2) [OF c] sumWeighted_linear)
qed

text \<open>
  C1. Started afresh, on any encoder and with any rounding, basic tuning takes no reading
  during the \<open>NumDummySteps\<close> settling calls and one reading on each of the next
  \<open>NumSamples + 1\<close> calls: the forward sweep accumulates the samples with indices 0 to
  \<open>NumSamples\<close>, one more than \<open>NumSamples\<close>, and the result it saves is computed
  from the sums over these \<open>NumSamples + 1\<close> samples with the denominator and the
  divisor of the mean for \<open>NumSamples\<close> samples. On a perfectly linear encoder of one
  count per unit of phase, in exact arithmetic, the slope saved is 517/511 and the origin
  -41264/511; the sums over \<open>NumSamples\<close> samples would have given slope 1 and origin
  -64.
\<close>

theorem BasicTuning_forward_sweep_samples:
  "readings (snd (BasicTuning_run r enc (NumDummySteps + NumSamples + 1) (True, s0)))
     = readings s0 + (NumSamples + 1)
   \<and> hd (events (snd (BasicTuning_run r enc (NumDummySteps + NumSamples + 1) (True, s0))))
     = forward_result r enc s0 (NumSamples + 1)
   \<and> forward_result exact linear_encoder startup (NumSamples + 1)
     = SaveBasicTuningResult (517 / 511) (- (41264 / 511)) 2108 False
   \<and> forward_result exact linear_encoder startup NumSamples
     = SaveBasicTuningResult 1 (- 64) 2108 False"
proof -
  have c: "\<forall>i<512. sample exact linear_encoder 0 i = (\<lambda>i. 8 * real i) i"
    by (simp add: sample_linear)
  have s512: "sumReading exact (sample exact linear_encoder 0) 512 = 1046528"
    "sumWeighted exact (sample exact linear_encoder 0) 512 = 89478144"
    by (simp_all add: sums_cong [OF c] sumReading_linear sumWeighted_linear)
  have st: "readings startup = 0" "desiredStepPhase startup = 0"
    by (simp_all add: startup_def)
  have g0: "GetReading linear_encoder 0 = 0" by (simp add: linear_encoder_def)
  show ?thesis
    using forward_sweep [of r enc s0]
    by (simp add: NumDummySteps_def forward_result_def Let_def sums_linear_513 s512 st g0
          exact_constants PhaseIncrement_def)
qed

lemma shifted_simps [simp]:
  "GetReading (shifted c enc) k = GetReading enc k + c"
  "GetPositioningType (shifted c enc) = GetPositioningType enc"
  by (simp_all add: shifted_def)

text \<open>
  One call on the shifted encoder simulates one call on the original: the two states
  agree except that the baseline is shifted and the saved origins may differ.
\<close>

lemma shift_step:
  assumes "s' = s\<lparr>initialEncoderReading := i', events := es'\<rparr>"
    and "f \<or> (bt_state s \<noteq> forwards \<and> bt_state s \<noteq> reverse) \<or> stepCounter s = 0
           \<or> i' = initialEncoderReading s + c"
    and "map without_origin es' = map without_origin (events s)"
  shows "fst (BasicTuning r (shifted c enc) f s') = fst (BasicTuning r enc f s)"
    and "snd (BasicTuning r (shifted c enc) f s') =
           (snd (BasicTuning r enc f s))
             \<lparr>initialEncoderReading := initialEncoderReading (snd (BasicTuning r (shifted c enc) f s')),
              events := events (snd (BasicTuning r (shifted c enc) f s'))\<rparr>"
    and "fst (BasicTuning r enc f s)
           \<or> (bt_state (snd (BasicTuning r enc f s)) \<noteq> forwards
               \<and> bt_state (snd (BasicTuning r enc f s)) \<noteq> reverse)
           \<or> stepCounter (snd (BasicTuning r enc f s)) = 0
           \<or> initialEncoderReading (snd (BasicTuning r (shifted c enc) f s'))
                = initialEncoderReading (snd (BasicTuning r enc f s)) + c"
    and "map without_origin (events (snd (BasicTuning r (shifted c enc) f s')))
           = map without_origin (events (snd (BasicTuning r enc f s)))"
  using assms
  by (cases f; cases "bt_state s"; cases "stepCounter s = 0";
      simp add: BasicTuning_def collect_def Let_def)+

lemma shift_run:
  "fst (BasicTuning_run r (shifted c enc) n (True, s)) = fst (BasicTuning_run r enc n (True, s))
   \<and> snd (BasicTuning_run r (shifted c enc) n (True, s)) =
       (snd (BasicTuning_run r enc n (True, s)))
         \<lparr>initialEncoderReading := initialEncoderReading (snd (BasicTuning_run r (shifted c enc) n (True, s))),
          events := events (snd (BasicTuning_run r (shifted c enc) n (True, s)))\<rparr>
   \<and> (fst (BasicTuning_run r enc n (True, s))
        \<or> (bt_state (snd (BasicTuning_run r enc n (True, s))) \<noteq> forwards
            \<and> bt_state (snd (BasicTuning_run r enc n (True, s))) \<noteq> reverse)
        \<or> stepCounter (snd (BasicTuning_run r enc n (True, s))) = 0
        \<or> initialEncoderReading (snd (BasicTuning_run r (shifted c enc) n (True, s)))
             = initialEncoderReading (snd (BasicTuning_run r enc n (True, s))) + c)
   \<and> map without_origin (events (snd (BasicTuning_run r (shifted c enc) n (True, s))))
       = map without_origin (events (snd (BasicTuning_run r enc n (True, s))))"
proof (induction n)
  case 0
  show ?case by simp
next
  case (Suc n)
  define A where "A = BasicTuning_run r enc n (True, s)"
  define B where "B = BasicTuning_run r (shifted c enc) n (True, s)"
  have ih: "fst B = fst A"
    "snd B = (snd A)\<lparr>initialEncoderReading := initialEncoderReading (snd B), events := events (snd B)\<rparr>"
    "fst A \<or> (bt_state (snd A) \<noteq> forwards \<and> bt_state (snd A) \<noteq> reverse)
       \<or> stepCounter (snd A) = 0 \<or> initialEncoderReading (snd B) = initialEncoderReading (snd A) + c"
    "map without_origin (events (snd B)) = map without_origin (events (snd A))"
    using Suc.IH by (simp_all add: A_def B_def)
  note st = shift_step [OF ih(2,3,4), of r enc]
  show ?case
    unfolding BasicTuning_run_Suc_end A_def [symmetric] B_def [symmetric] ih(1)
    using st by blast
qed

lemma shift_step_exact:
  assumes "s' = s\<lparr>initialEncoderReading := i', events := map (shift_origin (of_int (sint c))) (events s)\<rparr>"
    and "f \<or> (bt_state s \<noteq> forwards \<and> bt_state s \<noteq> reverse) \<or> stepCounter s = 0
           \<or> (i' = initialEncoderReading s + c
               \<and> sint (initialEncoderReading s + c) = sint (initialEncoderReading s) + sint c)"
    and "\<forall>k. sint (GetReading enc k + c) = sint (GetReading enc k) + sint c"
  shows "fst (BasicTuning exact (shifted c enc) f s') = fst (BasicTuning exact enc f s)"
    and "snd (BasicTuning exact (shifted c enc) f s') =
           (snd (BasicTuning exact enc f s))
             \<lparr>initialEncoderReading := initialEncoderReading (snd (BasicTuning exact (shifted c enc) f s')),
              events := map (shift_origin (of_int (sint c))) (events (snd (BasicTuning exact enc f s)))\<rparr>"
    and "fst (BasicTuning exact enc f s)
           \<or> (bt_state (snd (BasicTuning exact enc f s)) \<noteq> forwards
               \<and> bt_state (snd (BasicTuning exact enc f s)) \<noteq> reverse)
           \<or> stepCounter (snd (BasicTuning exact enc f s)) = 0
           \<or> (initialEncoderReading (snd (BasicTuning exact (shifted c enc) f s'))
                = initialEncoderReading (snd (BasicTuning exact enc f s)) + c
               \<and> sint (initialEncoderReading (snd (BasicTuning exact enc f s)) + c)
                   = sint (initialEncoderReading (snd (BasicTuning exact enc f s))) + sint c)"
  using assms
  by (cases f; cases "bt_state s"; cases "stepCounter s = 0";
      simp add: BasicTuning_def collect_def Let_def)+

lemma shift_run_exact:
  assumes "\<forall>k. sint (GetReading enc k + c) = sint (GetReading enc k) + sint c"
    and "events s = []"
  shows
  "fst (BasicTuning_run exact (shifted c enc) n (True, s)) = fst (BasicTuning_run exact enc n (True, s))
   \<and> snd (BasicTuning_run exact (shifted c enc) n (True, s)) =
       (snd (BasicTuning_run exact enc n (True, s)))
         \<lparr>initialEncoderReading := initialEncoderReading (snd (BasicTuning_run exact (shifted c enc) n (True, s))),
          events := map (shift_origin (of_int (sint c))) (events (snd (BasicTuning_run exact enc n (True, s))))\<rparr>
   \<and> (fst (BasicTuning_run exact enc n (True, s))
        \<or> (bt_state (snd (BasicTuning_run exact enc n (True, s))) \<noteq> forwards
            \<and> bt_state (snd (BasicTuning_run exact enc n (True, s))) \<noteq> reverse)
        \<or> stepCounter (snd (BasicTuning_run exact enc n (True, s))) = 0
        \<or> (initialEncoderReading (snd (BasicTuning_run exact (shifted c enc) n (True, s)))
             = initialEncoderReading (snd (BasicTuning_run exact enc n (True, s))) + c
            \<and> sint (initialEncoderReading (snd (BasicTuning_run exact enc n (True, s))) + c)
                = sint (initialEncoderReading (snd (BasicTuning_run exact enc n (True, s)))) + sint c))"
proof (induction n)
  case 0
  show ?case using assms(2) by simp
next
  case (Suc n)
  define A where "A = BasicTuning_run exact enc n (True, s)"
  define B where "B = BasicTuning_run exact (shifted c enc) n (True, s)"
  have ih: "fst B = fst A"
    "snd B = (snd A)\<lparr>initialEncoderReading := initialEncoderReading (snd B),
                      events := map (shift_origin (of_int (sint c))) (events (snd A))\<rparr>"
    "fst A \<or> (bt_state (snd A) \<noteq> forwards \<and> bt_state (snd A) \<noteq> reverse)
       \<or> stepCounter (snd A) = 0
       \<or> (initialEncoderReading (snd B) = initialEncoderReading (snd A) + c
           \<and> sint (initialEncoderReading (snd A) + c) = sint (initialEncoderReading (snd A)) + sint c)"
    using Suc.IH by (simp_all add: A_def B_def)
  note st = shift_step_exact [OF ih(2,3) assms(1)]
  show ?case
    unfolding BasicTuning_run_Suc_end A_def [symmetric] B_def [symmetric] ih(1)
    using st by blast
qed

lemma sums_zero:
  assumes "r 0 = 0" and "\<forall>i<k. d i = 0"
  shows "sumReading r d k = 0" and "sumWeighted r d k = 0"
  using assms by (induction k) (simp_all add: fadd_def fmul_def)

lemma sample_constant:
  "sample r (constant_encoder y) n0 i = r 0"
  "sample r (shifted c (constant_encoder y)) n0 i = r 0"
  by (simp_all add: sample_def constant_encoder_def float_of_int32_def)

text \<open>With a constant encoder the saved slope is the rounding of zero.\<close>

lemma forward_result_constant:
  assumes "r 0 = 0" and "GetReading enc = (\<lambda>k. y)"
  shows "forward_result r enc s0 n =
     SaveBasicTuningResult 0 (r (r (r (of_int (sint y)))))
       (fadd r (float_of_uint16 r (desiredStepPhase s0 + 8 * PhaseIncrement))
               (fmul r (float_of_uint16 r PhaseIncrement) (HalfNumSamplesMinusOne r)))
       False"
proof -
  have d: "\<forall>i<n. sample r enc (readings s0) i = 0"
    using assms by (simp add: sample_def float_of_int32_def)
  show ?thesis
    using assms
    by (simp add: forward_result_def Let_def sums_zero [where r = r and d = "sample r enc (readings s0)" and k = n, OF assms(1) d] fadd_def fsub_def fmul_def
          fdiv_def float_of_int32_def)
qed

lemma binary32_values:
  "binary32 0 = 0" "binary32 8 = 8" "binary32 64 = 64" "binary32 511 = 511"
  "binary32 (511 / 2) = 511 / 2" "binary32 2044 = 2044" "binary32 2108 = 2108"
  "binary32 33554433 = 33554432" "binary32 33554432 = 33554432"
  by (simp_all add: binary32_def round_even_def eval_nat_numeral)

lemma xMean_binary32:
  "fadd binary32 (float_of_uint16 binary32 (desiredStepPhase startup + 8 * PhaseIncrement))
     (fmul binary32 (float_of_uint16 binary32 PhaseIncrement) (HalfNumSamplesMinusOne binary32))
   = 2108"
  by (simp add: fadd_def fmul_def float_of_uint16_def float_of_uint_def HalfNumSamplesMinusOne_def
        PhaseIncrement_def startup_def binary32_values)

text \<open>
  C8, as stated, fails in single precision: with readings all 0 the forward sweep saves
  origin 0, with readings all 33554433 (the same readings shifted by 33554433) it saves
  origin 33554432, which is \<open>(float)33554433\<close>; the slope is 0 in both runs.
\<close>

theorem BasicTuning_shift_counterexample:
  "hd (events (snd (BasicTuning_run binary32 (constant_encoder 0) 521 (True, startup))))
     = SaveBasicTuningResult 0 0 2108 False
   \<and> hd (events (snd (BasicTuning_run binary32 (shifted 33554433 (constant_encoder 0)) 521
                        (True, startup))))
     = SaveBasicTuningResult 0 33554432 2108 False
   \<and> (33554432 :: real) \<noteq> 0 + 33554433"
proof -
  have a: "GetReading (constant_encoder 0) = (\<lambda>k. 0)"
    and b: "GetReading (shifted 33554433 (constant_encoder 0)) = (\<lambda>k. 33554433)"
    by (simp_all add: constant_encoder_def shifted_def)
  have z: "binary32 0 = 0" by (rule binary32_values)
  have s: "sint (33554433 :: 32 word) = 33554433" by simp
  show ?thesis
    using forward_sweep(4) [of binary32 "constant_encoder 0" startup]
      forward_sweep(4) [of binary32 "shifted 33554433 (constant_encoder 0)" startup]
    by (simp add: forward_result_constant [where r = binary32 and enc = "constant_encoder 0" and y = 0, OF z a]
          forward_result_constant [where r = binary32
            and enc = "shifted 33554433 (constant_encoder 0)" and y = 33554433, OF z b]
          xMean_binary32 binary32_values s)
qed

text \<open>
  C8, amended. For every constant \<open>c\<close>, every sequence of readings and every number of
  calls of basic tuning started afresh, the run on the readings shifted by \<open>c\<close> (in
  32-bit arithmetic) has the same two accumulators as the unshifted run and saves results
  with exactly the same slope, reference phase and direction, whatever the rounding of the
  float operations; only the origin is computed from the shifted baseline. In exact
  arithmetic, when shifting the readings does not overflow \<open>int32_t\<close>, each saved
  origin differs from the unshifted one by exactly \<open>c\<close>: the calls made by the
  shifted run, listed from an empty log, are those of the unshifted run with \<open>c\<close>
  added to every saved origin.
\<close>

theorem BasicTuning_shift_invariance:
  "fst (BasicTuning_run r (shifted c enc) n (True, s)) = fst (BasicTuning_run r enc n (True, s))
   \<and> regressionAccumulator (snd (BasicTuning_run r (shifted c enc) n (True, s)))
       = regressionAccumulator (snd (BasicTuning_run r enc n (True, s)))
   \<and> readingAccumulator (snd (BasicTuning_run r (shifted c enc) n (True, s)))
       = readingAccumulator (snd (BasicTuning_run r enc n (True, s)))
   \<and> map without_origin (events (snd (BasicTuning_run r (shifted c enc) n (True, s))))
       = map without_origin (events (snd (BasicTuning_run r enc n (True, s))))
   \<and> ((\<forall>k. sint (GetReading enc k + c) = sint (GetReading enc k) + sint c) \<longrightarrow>
        events (snd (BasicTuning_run exact (shifted c enc) n (True, s\<lparr>events := []\<rparr>)))
          = map (shift_origin (of_int (sint c)))
              (events (snd (BasicTuning_run exact enc n (True, s\<lparr>events := []\<rparr>)))))"
proof -
  define A where "A = snd (BasicTuning_run r enc n (True, s))"
  define B where "B = snd (BasicTuning_run r (shifted c enc) n (True, s))"
  have g: "fst (BasicTuning_run r (shifted c enc) n (True, s)) = fst (BasicTuning_run r enc n (True, s))"
    "B = A\<lparr>initialEncoderReading := initialEncoderReading B, events := events B\<rparr>"
    "map without_origin (events B) = map without_origin (events A)"
    using shift_run [of r c enc n s] by (simp_all add: A_def B_def)
  have acc: "regressionAccumulator B = regressionAccumulator A"
    "readingAccumulator B = readingAccumulator A"
    by (subst g(2), simp)+
  have ex: "events (snd (BasicTuning_run exact (shifted c enc) n (True, s\<lparr>events := []\<rparr>)))
          = map (shift_origin (of_int (sint c)))
              (events (snd (BasicTuning_run exact enc n (True, s\<lparr>events := []\<rparr>))))"
    if h: "\<forall>k. sint (GetReading enc k + c) = sint (GetReading enc k) + sint c"
  proof -
    define A' where "A' = snd (BasicTuning_run exact enc n (True, s\<lparr>events := []\<rparr>))"
    define B' where "B' = snd (BasicTuning_run exact (shifted c enc) n (True, s\<lparr>events := []\<rparr>))"
    have eq: "B' = A'\<lparr>initialEncoderReading := initialEncoderReading B',
                   events := map (shift_origin (of_int (sint c))) (events A')\<rparr>"
      using shift_run_exact [OF h, of "s\<lparr>events := []\<rparr>" n] by (simp add: A'_def B'_def)
    have "events B' = map (shift_origin (of_int (sint c))) (events A')"
      by (subst eq) simp
    then show ?thesis by (simp add: A'_def B'_def)
  qed
  show ?thesis
    using g(1,3) acc ex by (simp add: A_def B_def)
qed

theorem BasicTuning_shift_invariance_witness:
  "events (snd (BasicTuning_run exact (shifted 3 (constant_encoder 5)) 521
                  (True, startup\<lparr>events := []\<rparr>)))
     = map (shift_origin 3)
         (events (snd (BasicTuning_run exact (constant_encoder 5) 521
                         (True, startup\<lparr>events := []\<rparr>))))
   \<and> hd (events (snd (BasicTuning_run exact (constant_encoder 5) 521
                         (True, startup\<lparr>events := []\<rparr>))))
       = SaveBasicTuningResult 0 5 2108 False
   \<and> hd (events (snd (BasicTuning_run exact (shifted 3 (constant_encoder 5)) 521
                         (True, startup\<lparr>events := []\<rparr>))))
       = SaveBasicTuningResult 0 8 2108 False"
proof -
  have h: "\<forall>k. sint (GetReading (constant_encoder 5) k + 3)
                = sint (GetReading (constant_encoder 5) k) + sint (3 :: 32 word)"
    by (simp add: constant_encoder_def)
  have a: "GetReading (constant_encoder 5) = (\<lambda>k. 5)"
    and b: "GetReading (shifted 3 (constant_encoder 5)) = (\<lambda>k. 8)"
    by (simp_all add: constant_encoder_def shifted_def)
  have z: "exact 0 = 0" by (simp add: exact_def)
  have e1: "events (snd (BasicTuning_run exact (shifted 3 (constant_encoder 5)) 521
                  (True, startup\<lparr>events := []\<rparr>)))
     = map (shift_origin 3)
         (events (snd (BasicTuning_run exact (constant_encoder 5) 521
                         (True, startup\<lparr>events := []\<rparr>))))"
    using BasicTuning_shift_invariance [of exact 3 "constant_encoder 5" 521 startup] h
    by simp
  have e2: "hd (events (snd (BasicTuning_run exact (constant_encoder 5) 521
                         (True, startup\<lparr>events := []\<rparr>))))
       = SaveBasicTuningResult 0 5 2108 False"
    using forward_sweep(4) [of exact "constant_encoder 5" "startup\<lparr>events := []\<rparr>"]
    by (simp add: forward_result_constant [where r = exact and enc = "constant_encoder 5" and y = 5, OF z a]
          exact_def exact_constants PhaseIncrement_def
          startup_def)
  have e3: "hd (events (snd (BasicTuning_run exact (shifted 3 (constant_encoder 5)) 521
                         (True, startup\<lparr>events := []\<rparr>))))
       = SaveBasicTuningResult 0 8 2108 False"
    using forward_sweep(4) [of exact "shifted 3 (constant_encoder 5)" "startup\<lparr>events := []\<rparr>"]
    by (simp add: forward_result_constant [where r = exact and enc = "shifted 3 (constant_encoder 5)"
            and y = 8, OF z b] exact_def exact_constants PhaseIncrement_def
          startup_def)
  show ?thesis using e1 e2 e3 by simp
qed

end
